theory Spec2Isabelle
  imports Complex_Main "HOL-Library.Log_Nat"
begin

section \<open>The CircleArt Perlin-noise sketch (sketch.js)\<close>

text \<open>
  The sketch is a p5.js program. Its numbers are JavaScript numbers, IEEE binary64
  values; they are modelled as reals. The clock \<open>t\<close> is the one quantity that
  accumulates over the frames, and its update in \<open>draw\<close> is modelled with the rounding
  of binary64 written out (subsection on binary64 arithmetic). The mappings of the
  pointer and of the noise samples are single expressions evaluated afresh at each call;
  they are modelled in exact arithmetic, and the theorems about them say so.

  Painting calls (\<open>fill\<close>, \<open>circle\<close>, \<open>ellipse\<close>, \<open>rect\<close>, \<open>stroke\<close>, ...) change
  pixels and the drawing style; neither is part of the state modelled here, so they do
  not appear in the definitions. What is modelled of the p5 instance is the canvas size,
  the noise field, the random generator, the current transformation and the stack that
  \<open>push\<close> and \<open>pop\<close> maintain.
\<close>

subsection \<open>The p5.js library\<close>

text \<open>
  \<open>map(n, start1, stop1, start2, stop2)\<close> and \<open>constrain(n, low, high)\<close> as the
  library computes them.
\<close>

definition map_p5 :: "real \<Rightarrow> real \<Rightarrow> real \<Rightarrow> real \<Rightarrow> real \<Rightarrow> real" where
  "map_p5 n start1 stop1 start2 stop2 =
     (n - start1) / (stop1 - start1) * (stop2 - start2) + start2"

definition constrain :: "real \<Rightarrow> real \<Rightarrow> real \<Rightarrow> real" where
  "constrain n low high = max (min n high) low"

text \<open>
  The random generator. Before \<open>randomSeed\<close> is called, \<open>random\<close> returns what
  \<open>Math.random\<close> returns: an entropy source the program does not control, here a
  stream and a position in it. \<open>randomSeed(seed)\<close> switches to the library's linear
  congruential generator, whose state is the seed alone.
\<close>

datatype rng = Unseeded "nat \<Rightarrow> real" nat | Seeded nat

fun rand :: "rng \<Rightarrow> real \<times> rng" where
  "rand (Seeded z) =
     (let z' = (1664525 * z + 1013904223) mod 4294967296
      in (real z' / 4294967296, Seeded z'))"
| "rand (Unseeded src k) = (src k, Unseeded src (Suc k))"

text \<open>
  A transformation is recorded as the sequence of \<open>translate\<close>, \<open>rotate\<close> and
  \<open>scale\<close> calls composed since the identity.
\<close>

datatype xform = Translate real real | Rotate real | Scale real

record p5 =
  width :: real
  height :: real
  perlin :: "real \<Rightarrow> real \<Rightarrow> real"
  generator :: rng
  matrix :: "xform list"
  stack :: "xform list list"

text \<open>\<open>noise(x, y)\<close>; \<open>noise(x)\<close> is \<open>noise(x, 0)\<close>.\<close>

definition noise :: "p5 \<Rightarrow> real \<Rightarrow> real \<Rightarrow> real" where
  "noise g a b = perlin g a b"

definition noise1 :: "p5 \<Rightarrow> real \<Rightarrow> real" where
  "noise1 g a = noise g a 0"

definition randomSeed :: "nat \<Rightarrow> p5 \<Rightarrow> p5" where
  "randomSeed seed g = g\<lparr>generator := Seeded (seed mod 4294967296)\<rparr>"

text \<open>\<open>random(max)\<close> and \<open>random(min, max)\<close>.\<close>

definition random1 :: "real \<Rightarrow> p5 \<Rightarrow> real \<times> p5" where
  "random1 hi g = (let (r, z) = rand (generator g) in (r * hi, g\<lparr>generator := z\<rparr>))"

definition random2 :: "real \<Rightarrow> real \<Rightarrow> p5 \<Rightarrow> real \<times> p5" where
  "random2 lo hi g =
     (let (r, z) = rand (generator g);
          lo' = (if lo > hi then hi else lo);
          hi' = (if lo > hi then lo else hi)
      in (r * (hi' - lo') + lo', g\<lparr>generator := z\<rparr>))"

definition push :: "p5 \<Rightarrow> p5" where
  "push g = g\<lparr>stack := matrix g # stack g\<rparr>"

text \<open>\<open>pop()\<close> on an empty stack restores nothing.\<close>

definition pop :: "p5 \<Rightarrow> p5" where
  "pop g = (case stack g of [] \<Rightarrow> g | m # rest \<Rightarrow> g\<lparr>matrix := m, stack := rest\<rparr>)"

definition translate :: "real \<Rightarrow> real \<Rightarrow> p5 \<Rightarrow> p5" where
  "translate a b g = g\<lparr>matrix := matrix g @ [Translate a b]\<rparr>"

definition rotate_p5 :: "real \<Rightarrow> p5 \<Rightarrow> p5" where
  "rotate_p5 a g = g\<lparr>matrix := matrix g @ [Rotate a]\<rparr>"

definition scale_p5 :: "real \<Rightarrow> p5 \<Rightarrow> p5" where
  "scale_p5 a g = g\<lparr>matrix := matrix g @ [Scale a]\<rparr>"

subsection \<open>Configuration and global variables\<close>

record noise_config =
  animate :: bool
  speed :: real
  wiggle :: real
  sMin :: real
  sMax :: real
  rotMax :: real

definition NOISE :: noise_config where
  "NOISE = \<lparr>animate = True, speed = 0.02, wiggle = 50, sMin = 0.9, sMax = 1.15,
            rotMax = 300\<rparr>"

text \<open>
  A drawing routine is called with the time and runs on the p5 instance. The routines of
  the sketch read one global variable, \<open>noiseStrength\<close> (through \<open>noiseWiggle\<close>), and
  write none: the routine's second argument is the value of \<open>noiseStrength\<close> at the call.
\<close>

type_synonym routine = "real \<Rightarrow> real \<Rightarrow> p5 \<Rightarrow> p5"

record CircleArt =
  x :: real
  y :: real
  scale :: real
  drawFn :: routine
  nx :: real
  ny :: real
  ns :: real
  nr :: real

record sketch =
  t :: real
  noiseStrength :: real
  timeScale :: real
  circles :: "CircleArt list"
  gfx :: p5

subsection \<open>noiseWiggle and mouseMoved\<close>

text \<open>The first argument is the global \<open>noiseStrength\<close> that the function reads.\<close>

definition noiseWiggle :: "real \<Rightarrow> p5 \<Rightarrow> real \<Rightarrow> real \<Rightarrow> real \<Rightarrow> real" where
  "noiseWiggle strength g seed amp tGlobal =
     map_p5 (noise g seed tGlobal) 0 1 (- amp * strength) (amp * strength)"

text \<open>\<open>mouseX\<close> and \<open>mouseY\<close> are set by the host before it calls the handler.\<close>

definition mouseMoved :: "real \<Rightarrow> real \<Rightarrow> sketch \<Rightarrow> sketch" where
  "mouseMoved mouseX mouseY s =
     (let s1 = s\<lparr>noiseStrength := map_p5 mouseX 0 (width (gfx s)) 0.5 2.0\<rparr>;
          s2 = s1\<lparr>noiseStrength := constrain (noiseStrength s1) 0.5 2.0\<rparr>;
          s3 = s2\<lparr>timeScale := map_p5 mouseY 0 (height (gfx s2)) 0.3 2.0\<rparr>
      in s3\<lparr>timeScale := constrain (timeScale s3) 0.3 2.0\<rparr>)"

subsection \<open>The eight drawing routines\<close>

text \<open>
  Each routine is given by what it does to the p5 instance: its \<open>push\<close>, \<open>rotate\<close>,
  \<open>pop\<close>, \<open>randomSeed\<close> and \<open>random\<close> calls, in the order of the source, with the
  angles the source computes. \<open>drawCircle1\<close> and \<open>drawCircle4\<close> only paint.
\<close>

definition drawCircle1 :: routine where
  "drawCircle1 tt strength g = g"

definition drawCircle2 :: routine where
  "drawCircle2 tt strength g0 =
     fold (\<lambda>i g.
        let baseAngle = real i * (360 / 24);
            angleOffset = noiseWiggle strength g (300 + real i) 25 tt;
            angle = baseAngle + angleOffset
        in pop (rotate_p5 angle (push g))) [0..<24] g0"

definition drawCircle3 :: routine where
  "drawCircle3 tt strength g0 =
     fold (\<lambda>i g.
        let baseAngle = real i * 45;
            angleOffset = noiseWiggle strength g (500 + real i) 20 tt
        in pop (rotate_p5 (baseAngle + angleOffset) (push g))) [0..<8] g0"

definition drawCircle4 :: routine where
  "drawCircle4 tt strength g = g"

definition drawCircle5 :: routine where
  "drawCircle5 tt strength g0 =
     pop (fold (\<lambda>i g.
        let baseAngle = real i * 60;
            angleOffset = noiseWiggle strength g (800 + real i) 35 tt
        in rotate_p5 (baseAngle + angleOffset) g) [0..<6] (push g0))"

definition drawCircle6 :: routine where
  "drawCircle6 tt strength g0 =
     (let s = 260;
          g1 = randomSeed 1234 g0;
          g2 = fold (\<lambda>i g.
                 let (r1, ga) = random2 (- 36) 36 g;
                     (r2, gb) = random2 (- 0.05 * s) (0.05 * s) ga;
                     (r3, gc) = random2 0.05 0.1 gb
                 in gc) [0..<6] g1
      in fold (\<lambda>i g.
                 let (r1, ga) = random2 (- 36) 36 g;
                     (r2, gb) = random2 0.1 0.12 ga
                 in gb) [0..<6] g2)"

definition drawCircle7 :: routine where
  "drawCircle7 tt strength g0 =
     fold (\<lambda>i g.
        let baseAngle = (360 / 24) * real i;
            angleOffset = noiseWiggle strength g (1100 + real i) 14 tt
        in pop (rotate_p5 (baseAngle + angleOffset) (push g))) [0..<24] g0"

definition drawCircle8 :: routine where
  "drawCircle8 tt strength g0 =
     fold (\<lambda>i g.
        let baseAngle = (360 / 16) * real i
        in pop (rotate_p5 baseAngle (push g))) [0..<16] g0"

subsection \<open>CircleArt\<close>

definition new_CircleArt :: "real \<Rightarrow> real \<Rightarrow> real \<Rightarrow> routine \<Rightarrow> p5 \<Rightarrow> CircleArt \<times> p5" where
  "new_CircleArt a b sc fn g =
     (let (r1, g1) = random1 1000 g;
          (r2, g2) = random1 1000 g1;
          (r3, g3) = random1 1000 g2;
          (r4, g4) = random1 1000 g3
      in (\<lparr>x = a, y = b, scale = sc, drawFn = fn, nx = r1, ny = r2, ns = r3, nr = r4\<rparr>, g4))"

text \<open>The values \<open>display\<close> computes before it touches the transformation.\<close>

definition display_dx :: "noise_config \<Rightarrow> CircleArt \<Rightarrow> real \<Rightarrow> real \<Rightarrow> p5 \<Rightarrow> real" where
  "display_dx cfg c tt strength g =
     (let px = noise1 g (nx c + tt)
      in map_p5 px 0 1 (- wiggle cfg * strength) (wiggle cfg * strength))"

definition display_dy :: "noise_config \<Rightarrow> CircleArt \<Rightarrow> real \<Rightarrow> real \<Rightarrow> p5 \<Rightarrow> real" where
  "display_dy cfg c tt strength g =
     (let py = noise1 g (ny c + tt)
      in map_p5 py 0 1 (- wiggle cfg * strength) (wiggle cfg * strength))"

definition display_sFactor :: "noise_config \<Rightarrow> CircleArt \<Rightarrow> real \<Rightarrow> real \<Rightarrow> p5 \<Rightarrow> real" where
  "display_sFactor cfg c tt strength g =
     (let ps = noise1 g (ns c + tt)
      in map_p5 ps 0 1 (sMin cfg) (sMax cfg * strength))"

definition display_ang :: "noise_config \<Rightarrow> CircleArt \<Rightarrow> real \<Rightarrow> real \<Rightarrow> p5 \<Rightarrow> real" where
  "display_ang cfg c tt strength g =
     (let pr = noise1 g (nr c + tt)
      in map_p5 pr 0 1 (- rotMax cfg * strength) (rotMax cfg * strength))"

definition display :: "noise_config \<Rightarrow> CircleArt \<Rightarrow> real \<Rightarrow> real \<Rightarrow> p5 \<Rightarrow> p5" where
  "display cfg c tt strength g =
     (let dx = display_dx cfg c tt strength g;
          dy = display_dy cfg c tt strength g;
          sFactor = display_sFactor cfg c tt strength g;
          sc = scale c * sFactor;
          ang = display_ang cfg c tt strength g;
          g1 = push g;
          g2 = translate (x c + dx) (y c + dy) g1;
          g3 = rotate_p5 ang g2;
          g4 = scale_p5 sc g3;
          g5 = drawFn c tt strength g4
      in pop g5)"

subsection \<open>Binary64 arithmetic\<close>

text \<open>
  A JavaScript number is an IEEE 754 binary64 value, and \<open>+\<close> and \<open>*\<close> return the
  exact result rounded to the nearest binary64 value, ties to the even significand.
  \<open>fl\<close> is that rounding on the reals, for results of magnitude below \<open>2 ^ 1024\<close>
  (beyond it JavaScript returns Infinity; no computation here comes near). A number
  literal of the source denotes the rounding of its decimal value.
\<close>

definition round_half_even :: "real \<Rightarrow> int" where
  "round_half_even r =
     (let f = \<lfloor>r\<rfloor>; d = r - of_int f
      in if d < 1 / 2 then f else if d > 1 / 2 then f + 1 else if even f then f else f + 1)"

definition pow2 :: "int \<Rightarrow> real" where
  "pow2 e = (if 0 \<le> e then 2 ^ nat e else 1 / 2 ^ nat (- e))"

text \<open>The integer \<open>e\<close> with \<open>2 ^ e \<le> a < 2 ^ (e + 1)\<close>, for \<open>a > 0\<close>.\<close>

definition binade :: "real \<Rightarrow> int" where
  "binade a = (if 1 \<le> a then bitlen \<lfloor>a\<rfloor> - 1 else - bitlen (\<lceil>1 / a\<rceil> - 1))"

definition fl :: "real \<Rightarrow> real" where
  "fl v =
     (if v = 0 then 0
      else (let u = pow2 (max (binade \<bar>v\<bar> - 52) (- 1074))
            in of_int (round_half_even (v / u)) * u))"

definition fadd :: "real \<Rightarrow> real \<Rightarrow> real" where
  "fadd a b = fl (a + b)"

definition fmul :: "real \<Rightarrow> real \<Rightarrow> real" where
  "fmul a b = fl (a * b)"

text \<open>
  The clock update of \<open>draw\<close>, \<open>if (NOISE.animate) t += NOISE.speed * timeScale\<close>:
  the new value of \<open>t\<close> from the time scale and the old value, a binary64 product and
  a binary64 sum.
\<close>

definition clock_f64 :: "noise_config \<Rightarrow> real \<Rightarrow> real \<Rightarrow> real" where
  "clock_f64 cfg ts tv =
     (if animate cfg then fadd tv (fmul (fl (speed cfg)) (fl ts)) else tv)"

text \<open>The same update in exact arithmetic, for comparison.\<close>

definition clock_exact :: "noise_config \<Rightarrow> real \<Rightarrow> real \<Rightarrow> real" where
  "clock_exact cfg ts tv = (if animate cfg then tv + speed cfg * ts else tv)"

definition fsub :: "real \<Rightarrow> real \<Rightarrow> real" where
  "fsub a b = fl (a - b)"

definition fdiv :: "real \<Rightarrow> real \<Rightarrow> real" where
  "fdiv a b = fl (a / b)"

text \<open>The library's \<open>map\<close> in binary64, operation by operation.\<close>

definition map_f64 :: "real \<Rightarrow> real \<Rightarrow> real \<Rightarrow> real \<Rightarrow> real \<Rightarrow> real" where
  "map_f64 n start1 stop1 start2 stop2 =
     fadd (fmul (fdiv (fsub n start1) (fsub stop1 start1)) (fsub stop2 start2)) start2"

subsection \<open>The frame\<close>

record dot_config =
  gx :: real
  gy :: real
  count :: nat
  rMin :: real
  rMax :: real

definition dotConfig :: "dot_config list" where
  "dotConfig =
     [\<lparr>gx = 0, gy = 0, count = 25, rMin = 15, rMax = 45\<rparr>,
      \<lparr>gx = 1, gy = 0, count = 25, rMin = 15, rMax = 45\<rparr>,
      \<lparr>gx = 0, gy = 1, count = 15, rMin = 10, rMax = 36\<rparr>,
      \<lparr>gx = 1, gy = 1, count = 15, rMin = 10, rMax = 36\<rparr>]"

definition drawBackgroundGrid :: "p5 \<Rightarrow> p5" where
  "drawBackgroundGrid g0 =
     (let cell = width g0 / 2;
          g1 = randomSeed 9103 g0
      in fold (\<lambda>q gq.
           let baseX = gx q * cell;
               baseY = gy q * cell
           in fold (\<lambda>i g.
                let (r, ga) = random2 (rMin q) (rMax q) g;
                    margin = 10;
                    (rx, gb) = random2 (margin + r) (cell - margin - r) ga;
                    cx = baseX + rx;
                    (ry, gc) = random2 (margin + r) (cell - margin - r) gb;
                    cy = baseY + ry
                in gc) [0..<count q] gq) dotConfig g1)"

text \<open>The twelve constructor calls of the array literal, in order.\<close>

definition layout :: "(real \<times> real \<times> real \<times> routine) list" where
  "layout =
     [(10, 10, 1.0, drawCircle6),
      (220, 180, 0.9, drawCircle4),
      (400, - 30, 0.4, drawCircle7),
      (530, 180, 0.6, drawCircle8),
      (785, 80, 0.8, drawCircle4),
      (- 45, 270, 0.9, drawCircle3),
      (154, 460, 1.4, drawCircle1),
      (434, 460, 1.4, drawCircle2),
      (760, 410, 1.2, drawCircle3),
      (20, 700, 1.0, drawCircle5),
      (295, 730, 1.1, drawCircle6),
      (610, 730, 0.7, drawCircle7)]"

fun construct :: "(real \<times> real \<times> real \<times> routine) list \<Rightarrow> p5 \<Rightarrow> CircleArt list \<times> p5" where
  "construct [] g = ([], g)"
| "construct ((a, b, sc, fn) # rest) g =
     (let (c, g1) = new_CircleArt a b sc fn g;
          (cs, g2) = construct rest g1
      in (c # cs, g2))"

definition drawAllCircles :: "noise_config \<Rightarrow> real \<Rightarrow> sketch \<Rightarrow> sketch" where
  "drawAllCircles cfg tt s =
     (let s1 = (if length (circles s) = 0
                then (let (cs, g) = construct layout (gfx s) in s\<lparr>circles := cs, gfx := g\<rparr>)
                else s)
      in s1\<lparr>gfx := fold (\<lambda>c g. display cfg c tt (noiseStrength s1) g) (circles s1) (gfx s1)\<rparr>)"

text \<open>The clock is advanced in binary64, by \<open>clock_f64\<close>.\<close>

definition draw :: "noise_config \<Rightarrow> sketch \<Rightarrow> sketch" where
  "draw cfg s =
     (let s1 = s\<lparr>gfx := drawBackgroundGrid (gfx s)\<rparr>;
          s2 = s1\<lparr>t := clock_f64 cfg (timeScale s1) (t s1)\<rparr>
      in drawAllCircles cfg (t s2) s2)"

subsection \<open>Start of a session\<close>

text \<open>
  The global variables as the script initialises them, on a p5 instance with the
  library's default canvas, a noise field and an entropy source.
\<close>

definition initial :: "(real \<Rightarrow> real \<Rightarrow> real) \<Rightarrow> (nat \<Rightarrow> real) \<Rightarrow> sketch" where
  "initial field src =
     \<lparr>t = 0, noiseStrength = 1.0, timeScale = 1.0, circles = [],
      gfx = \<lparr>width = 100, height = 100, perlin = field, generator = Unseeded src 0,
             matrix = [], stack = []\<rparr>\<rparr>"

text \<open>
  \<open>setup\<close>: \<open>createCanvas(800, 800)\<close> sets the canvas size; \<open>centerCanvas\<close> places
  the canvas element in the window and \<open>angleMode(DEGREES)\<close> fixes the unit of the
  angles, which are recorded as given.
\<close>

definition setup_sketch :: "sketch \<Rightarrow> sketch" where
  "setup_sketch s = s\<lparr>gfx := (gfx s)\<lparr>width := 800, height := 800\<rparr>\<rparr>"

text \<open>
  Starting the program with a configuration: the script evaluates the \<open>NOISE\<close> literal
  and the host calls \<open>setup\<close>. No statement of the program throws, and \<open>setup\<close> reads
  no field of the configuration.
\<close>

datatype startup_error = ConfigurationError string

definition startup :: "noise_config \<Rightarrow> sketch \<Rightarrow> startup_error + sketch" where
  "startup cfg s = Inr (setup_sketch s)"

text \<open>A session is a sequence of host callbacks.\<close>

datatype event = Frame | MouseMoved real real | WindowResized

fun handle :: "noise_config \<Rightarrow> event \<Rightarrow> sketch \<Rightarrow> sketch" where
  "handle cfg Frame s = draw cfg s"
| "handle cfg (MouseMoved mouseX mouseY) s = mouseMoved mouseX mouseY s"
| "handle cfg WindowResized s = s"

definition run :: "noise_config \<Rightarrow> event list \<Rightarrow> sketch \<Rightarrow> sketch" where
  "run cfg evs s = fold (handle cfg) evs s"

subsection \<open>The specification's vocabulary\<close>

text \<open>
  Linear interpolation of a value from one interval to another, clamping to a closed
  interval, and the remap of a sample in \<open>[0, 1]\<close> to an interval, as the specification
  words them.
\<close>

definition lerp_spec :: "real \<Rightarrow> real \<Rightarrow> real \<Rightarrow> real \<Rightarrow> real \<Rightarrow> real" where
  "lerp_spec v a b c d = c + (d - c) * ((v - a) / (b - a))"

definition clamp_spec :: "real \<Rightarrow> real \<Rightarrow> real \<Rightarrow> real" where
  "clamp_spec v lo hi = (if v < lo then lo else if hi < v then hi else v)"

definition remap_spec :: "real \<Rightarrow> real \<Rightarrow> real \<Rightarrow> real" where
  "remap_spec p lo hi = lo + p * (hi - lo)"

text \<open>
  The configurations the specification calls invalid: the scale range is empty or an
  amplitude is negative.
\<close>

definition config_invalid :: "noise_config \<Rightarrow> bool" where
  "config_invalid cfg \<longleftrightarrow> sMin cfg > sMax cfg \<or> wiggle cfg < 0 \<or> rotMax cfg < 0"

text \<open>A drawing routine is balanced when it returns with the stack it was called with.\<close>

definition balanced :: "routine \<Rightarrow> bool" where
  "balanced fn \<longleftrightarrow> (\<forall>tt strength g. stack (fn tt strength g) = stack g)"

subsection \<open>Concrete inputs\<close>

text \<open>
  A noise field within the Noise Source contract (continuous, values in \<open>[0, 1]\<close>), a
  session that has run \<open>setup\<close>, and a figure with four seeds.
\<close>

definition ramp_field :: "real \<Rightarrow> real \<Rightarrow> real" where
  "ramp_field a b = min 1 \<bar>b\<bar>"

definition session0 :: sketch where
  "session0 = setup_sketch (initial ramp_field (\<lambda>k. 0))"

definition figure0 :: CircleArt where
  "figure0 = \<lparr>x = 10, y = 10, scale = 1, drawFn = drawCircle6,
              nx = 100, ny = 200, ns = 300, nr = 400\<rparr>"

text \<open>A routine that saves the transformation and returns without restoring it.\<close>

definition leaky :: routine where
  "leaky tt strength g = push g"

section \<open>Properties\<close>

subsection \<open>Bounded offsets\<close>

lemma map_p5_unit: "map_p5 n 0 1 lo hi = lo + n * (hi - lo)"
  by (simp add: map_p5_def)

lemma noiseWiggle_eq: "noiseWiggle strength g seed amp tGlobal = amp * strength * (2 * noise g seed tGlobal - 1)"
  by (simp add: noiseWiggle_def map_p5_unit algebra_simps)

lemma noise_session0: "noise (gfx session0) a b = min 1 \<bar>b\<bar>"
  by (simp add: noise_def session0_def setup_sketch_def initial_def ramp_field_def)

text \<open>
  C1: for every seed, every amplitude \<open>amp \<ge> 0\<close>, every time and every noise strength
  in \<open>[0.5, 2.0]\<close>, the value of \<open>noiseWiggle\<close> has absolute value at most
  \<open>amp * 2.0\<close>, given that the noise sample lies in \<open>[0, 1]\<close> as the library's
  \<open>noise\<close> promises; with noise strength \<open>0.5\<close> and amplitude \<open>20\<close> the value lies in
  \<open>[-10, 10]\<close>.
\<close>

theorem noiseWiggle_bounded:
  "(0 \<le> amp \<and> 1 / 2 \<le> strength \<and> strength \<le> 2 \<and>
     0 \<le> noise g seed tGlobal \<and> noise g seed tGlobal \<le> 1
     \<longrightarrow> \<bar>noiseWiggle strength g seed amp tGlobal\<bar> \<le> amp * 2) \<and>
   (0 \<le> noise g seed tGlobal \<and> noise g seed tGlobal \<le> 1
     \<longrightarrow> - 10 \<le> noiseWiggle (1 / 2) g seed 20 tGlobal \<and>
         noiseWiggle (1 / 2) g seed 20 tGlobal \<le> 10)"
proof (intro conjI impI)
  assume h: "0 \<le> amp \<and> 1 / 2 \<le> strength \<and> strength \<le> 2 \<and>
     0 \<le> noise g seed tGlobal \<and> noise g seed tGlobal \<le> 1"
  let ?n = "noise g seed tGlobal"
  have a: "\<bar>2 * ?n - 1\<bar> \<le> 1" using h by (simp add: abs_le_iff)
  have b: "0 \<le> amp * strength" using h by simp
  have "\<bar>noiseWiggle strength g seed amp tGlobal\<bar> = \<bar>amp * strength\<bar> * \<bar>2 * ?n - 1\<bar>"
    unfolding noiseWiggle_eq by (rule abs_mult)
  also have "\<dots> = amp * strength * \<bar>2 * ?n - 1\<bar>"
    using b by (simp only: abs_of_nonneg)
  also have "\<dots> \<le> amp * strength * 1"
    using a b by (rule mult_left_mono)
  also have "\<dots> \<le> amp * 2" using h by (simp add: mult_left_mono)
  finally show "\<bar>noiseWiggle strength g seed amp tGlobal\<bar> \<le> amp * 2" .
next
  assume h: "0 \<le> noise g seed tGlobal \<and> noise g seed tGlobal \<le> 1"
  then show "- 10 \<le> noiseWiggle (1 / 2) g seed 20 tGlobal" by (simp add: noiseWiggle_eq)
next
  assume h: "0 \<le> noise g seed tGlobal \<and> noise g seed tGlobal \<le> 1"
  then show "noiseWiggle (1 / 2) g seed 20 tGlobal \<le> 10" by (simp add: noiseWiggle_eq)
qed

theorem noiseWiggle_bounded_witness:
  "(0::real) \<le> 20 \<and> (1::real) / 2 \<le> 2 \<and> (2::real) \<le> 2 \<and>
   0 \<le> noise (gfx session0) 42 (1 / 4) \<and> noise (gfx session0) 42 (1 / 4) \<le> 1 \<and>
   \<bar>noiseWiggle 2 (gfx session0) 42 20 (1 / 4)\<bar> \<le> 20 * 2 \<and>
   - 10 \<le> noiseWiggle (1 / 2) (gfx session0) 42 20 (1 / 4) \<and>
   noiseWiggle (1 / 2) (gfx session0) 42 20 (1 / 4) \<le> 10"
  using noiseWiggle_bounded[of 20 2 "gfx session0" 42 "1 / 4"]
  by (simp add: noise_session0)

subsection \<open>Pointer input\<close>

lemma map_p5_lerp: "map_p5 v 0 b c d = lerp_spec v 0 b c d"
  by (simp add: map_p5_def lerp_spec_def)

lemma constrain_clamp: "lo \<le> hi \<Longrightarrow> constrain v lo hi = clamp_spec v lo hi"
  by (simp add: constrain_def clamp_spec_def)

lemma constrain_range: "lo \<le> hi \<Longrightarrow> lo \<le> constrain v lo hi \<and> constrain v lo hi \<le> hi"
  by (simp add: constrain_def)

lemma noiseStrength_mouseMoved:
  "noiseStrength (mouseMoved mx my s) = constrain (map_p5 mx 0 (width (gfx s)) 0.5 2) 0.5 2"
  by (simp add: mouseMoved_def Let_def)

lemma timeScale_mouseMoved:
  "timeScale (mouseMoved mx my s) = constrain (map_p5 my 0 (height (gfx s)) 0.3 2) 0.3 2"
  by (simp add: mouseMoved_def Let_def)

lemma canvas_session0: "width (gfx session0) = 800" "height (gfx session0) = 800"
  by (simp_all add: session0_def setup_sketch_def)

text \<open>
  C2: on a canvas of positive size, \<open>mouseMoved\<close> sets \<open>noiseStrength\<close> to the clamp to
  \<open>[0.5, 2.0]\<close> of the linear interpolation of \<open>mouseX\<close> from \<open>[0, width]\<close> to
  \<open>[0.5, 2.0]\<close>, and \<open>timeScale\<close> to the clamp to \<open>[0.3, 2.0]\<close> of the interpolation
  of \<open>mouseY\<close> from \<open>[0, height]\<close> to \<open>[0.3, 2.0]\<close>. Whatever the coordinates, both
  parameters stay in their intervals; on the 800 by 800 canvas the pointer at
  \<open>(400, 400)\<close> gives \<open>1.25\<close> and \<open>1.15\<close>, at \<open>(0, 0)\<close> gives \<open>0.5\<close> and \<open>0.3\<close>, at
  \<open>(800, 800)\<close> gives \<open>2.0\<close> and \<open>2.0\<close>.
\<close>

theorem mouseMoved_clamped_lerp:
  assumes "0 < width (gfx s)" and "0 < height (gfx s)"
  shows "noiseStrength (mouseMoved mx my s) =
           clamp_spec (lerp_spec mx 0 (width (gfx s)) 0.5 2.0) 0.5 2.0 \<and>
         timeScale (mouseMoved mx my s) =
           clamp_spec (lerp_spec my 0 (height (gfx s)) 0.3 2.0) 0.3 2.0 \<and>
         0.5 \<le> noiseStrength (mouseMoved mx my s) \<and> noiseStrength (mouseMoved mx my s) \<le> 2.0 \<and>
         0.3 \<le> timeScale (mouseMoved mx my s) \<and> timeScale (mouseMoved mx my s) \<le> 2.0 \<and>
         (width (gfx s) = 800 \<and> height (gfx s) = 800 \<longrightarrow>
            noiseStrength (mouseMoved 400 400 s) = 1.25 \<and> timeScale (mouseMoved 400 400 s) = 1.15 \<and>
            noiseStrength (mouseMoved 0 0 s) = 0.5 \<and> timeScale (mouseMoved 0 0 s) = 0.3 \<and>
            noiseStrength (mouseMoved 800 800 s) = 2.0 \<and> timeScale (mouseMoved 800 800 s) = 2.0)"
proof -
  have 1: "noiseStrength (mouseMoved mx my s) =
           clamp_spec (lerp_spec mx 0 (width (gfx s)) 0.5 2.0) 0.5 2.0"
    by (simp add: noiseStrength_mouseMoved map_p5_lerp constrain_clamp)
  have 2: "timeScale (mouseMoved mx my s) =
           clamp_spec (lerp_spec my 0 (height (gfx s)) 0.3 2.0) 0.3 2.0"
    by (simp add: timeScale_mouseMoved map_p5_lerp constrain_clamp)
  have 3: "0.5 \<le> noiseStrength (mouseMoved mx my s) \<and> noiseStrength (mouseMoved mx my s) \<le> 2.0"
    using constrain_range[of "0.5" "2.0" "map_p5 mx 0 (width (gfx s)) 0.5 2"]
    by (simp add: noiseStrength_mouseMoved)
  have 4: "0.3 \<le> timeScale (mouseMoved mx my s) \<and> timeScale (mouseMoved mx my s) \<le> 2.0"
    using constrain_range[of "0.3" "2.0" "map_p5 my 0 (height (gfx s)) 0.3 2"]
    by (simp add: timeScale_mouseMoved)
  have 5: "width (gfx s) = 800 \<and> height (gfx s) = 800 \<longrightarrow>
            noiseStrength (mouseMoved 400 400 s) = 1.25 \<and> timeScale (mouseMoved 400 400 s) = 1.15 \<and>
            noiseStrength (mouseMoved 0 0 s) = 0.5 \<and> timeScale (mouseMoved 0 0 s) = 0.3 \<and>
            noiseStrength (mouseMoved 800 800 s) = 2.0 \<and> timeScale (mouseMoved 800 800 s) = 2.0"
    by (simp add: noiseStrength_mouseMoved timeScale_mouseMoved map_p5_def constrain_def)
  from 1 2 3 4 5 show ?thesis by blast
qed

theorem mouseMoved_clamped_lerp_witness:
  "0 < width (gfx session0) \<and> 0 < height (gfx session0) \<and>
   width (gfx session0) = 800 \<and> height (gfx session0) = 800 \<and>
   noiseStrength (mouseMoved 1000 (- 5) session0) = 2 \<and>
   timeScale (mouseMoved 1000 (- 5) session0) = 0.3 \<and>
   noiseStrength (mouseMoved 400 400 session0) = 1.25 \<and>
   timeScale (mouseMoved 400 400 session0) = 1.15 \<and>
   noiseStrength (mouseMoved 0 0 session0) = 0.5 \<and>
   timeScale (mouseMoved 0 0 session0) = 0.3 \<and>
   noiseStrength (mouseMoved 800 800 session0) = 2.0 \<and>
   timeScale (mouseMoved 800 800 session0) = 2.0"
  using mouseMoved_clamped_lerp[of session0 1000 "- 5"]
  by (simp add: canvas_session0 clamp_spec_def lerp_spec_def)

subsection \<open>Breathing scale\<close>

text \<open>
  C4: the breathing scale factor of \<open>display\<close> is the linear remap of the scale noise
  sample from \<open>[0, 1]\<close> to \<open>[sMin, sMax * noiseStrength]\<close>: the sample \<open>0\<close> is sent to
  \<open>sMin\<close>, whatever the noise strength, and the sample \<open>1\<close> to \<open>sMax * noiseStrength\<close>.
\<close>

theorem display_sFactor_remap:
  "display_sFactor cfg c tt strength g =
     remap_spec (noise g (ns c + tt) 0) (sMin cfg) (sMax cfg * strength) \<and>
   remap_spec 0 (sMin cfg) (sMax cfg * strength) = sMin cfg \<and>
   remap_spec 1 (sMin cfg) (sMax cfg * strength) = sMax cfg * strength"
  by (simp add: display_sFactor_def noise1_def map_p5_unit remap_spec_def)

subsection \<open>The figure list\<close>

lemma generator_random1:
  "generator (snd (random1 hi g)) = snd (rand (generator g))"
  "fst (random1 hi g) = fst (rand (generator g)) * hi"
  by (simp_all add: random1_def split_beta)

lemma generator_random2:
  "generator (snd (random2 lo hi g)) = snd (rand (generator g))"
  by (simp add: random2_def split_beta Let_def)

lemma new_CircleArt_generator:
  assumes "generator g = generator g'"
  shows "fst (new_CircleArt a b sc fn g) = fst (new_CircleArt a b sc fn g') \<and>
         generator (snd (new_CircleArt a b sc fn g)) = generator (snd (new_CircleArt a b sc fn g'))"
  using assms by (simp add: new_CircleArt_def split_beta generator_random1)

lemma construct_generator:
  "generator g = generator g' \<Longrightarrow>
   fst (construct l g) = fst (construct l g') \<and>
   generator (snd (construct l g)) = generator (snd (construct l g'))"
proof (induction l arbitrary: g g')
  case Nil
  then show ?case by simp
next
  case (Cons p l)
  obtain a b sc fn where p: "p = (a, b, sc, fn)" by (cases p) auto
  from new_CircleArt_generator[OF Cons.prems, of a b sc fn]
  have h: "fst (new_CircleArt a b sc fn g) = fst (new_CircleArt a b sc fn g')"
    "generator (snd (new_CircleArt a b sc fn g)) = generator (snd (new_CircleArt a b sc fn g'))"
    by simp_all
  from Cons.IH[OF h(2)] h(1) show ?case
    by (simp add: p split_beta)
qed

lemma length_construct: "length (fst (construct l g)) = length l"
  by (induction l arbitrary: g) (auto simp: split_beta)

lemma fold_generator:
  assumes "\<And>i g g'. generator g = generator g' \<Longrightarrow> generator (f i g) = generator (f' i g')"
  shows "generator g = generator g' \<Longrightarrow> generator (fold f xs g) = generator (fold f' xs g')"
  using assms by (induction xs arbitrary: g g') auto

lemma drawBackgroundGrid_generator:
  "generator (drawBackgroundGrid g) = generator (drawBackgroundGrid g')"
  unfolding drawBackgroundGrid_def Let_def
  apply (rule fold_generator)
   apply (rule fold_generator)
    apply (simp add: split_beta generator_random2)
   apply assumption
  apply (simp add: randomSeed_def)
  done

lemma registry_fixed:
  "fst (construct layout (drawBackgroundGrid g)) = fst (construct layout (drawBackgroundGrid g'))"
  using construct_generator[OF drawBackgroundGrid_generator] by blast

lemma circles_drawAllCircles:
  "circles (drawAllCircles cfg tt s) =
     (if circles s = [] then fst (construct layout (gfx s)) else circles s)"
  by (simp add: drawAllCircles_def Let_def split_beta)

lemma circles_draw:
  "circles (draw cfg s) =
     (if circles s = [] then fst (construct layout (drawBackgroundGrid (gfx s))) else circles s)"
  by (simp add: draw_def Let_def circles_drawAllCircles)

lemma circles_mouseMoved: "circles (mouseMoved a b s) = circles s"
  by (simp add: mouseMoved_def Let_def)

lemma layout_length: "length layout = 12"
  by (simp add: layout_def)

lemma circles_draw_nonempty: "circles (draw cfg s) \<noteq> []"
proof -
  have "length (fst (construct layout (drawBackgroundGrid (gfx s)))) = 12"
    by (simp add: length_construct layout_length)
  then have "fst (construct layout (drawBackgroundGrid (gfx s))) \<noteq> []" by auto
  then show ?thesis by (simp add: circles_draw)
qed

lemma circles_handle: "circles s \<noteq> [] \<Longrightarrow> circles (handle cfg e s) = circles s"
  by (cases e) (simp_all add: circles_draw circles_mouseMoved)

lemma circles_run: "circles s \<noteq> [] \<Longrightarrow> circles (run cfg evs s) = circles s"
  unfolding run_def
proof (induction evs arbitrary: s)
  case Nil
  then show ?case by simp
next
  case (Cons e evs)
  from Cons.prems have "circles (handle cfg e s) = circles s" by (rule circles_handle)
  with Cons.IH[of "handle cfg e s"] Cons.prems show ?case by simp
qed

lemma circles_run_first_frame:
  "circles s = [] \<Longrightarrow> Frame \<in> set evs \<Longrightarrow>
   circles (run cfg evs s) = fst (construct layout (drawBackgroundGrid (gfx s0)))"
proof (induction evs arbitrary: s)
  case Nil
  then show ?case by simp
next
  case (Cons e evs)
  show ?case
  proof (cases e)
    case Frame
    have "circles (run cfg (e # evs) s) = circles (run cfg evs (draw cfg s))"
      by (simp add: run_def Frame)
    also have "\<dots> = circles (draw cfg s)"
      by (rule circles_run) (rule circles_draw_nonempty)
    also have "\<dots> = fst (construct layout (drawBackgroundGrid (gfx s)))"
      using Cons.prems by (simp add: circles_draw)
    finally show ?thesis by (simp add: registry_fixed[of "gfx s" "gfx s0"])
  next
    case (MouseMoved a b)
    with Cons.prems have "Frame \<in> set evs" by auto
    moreover have "circles (mouseMoved a b s) = []" using Cons.prems by (simp add: circles_mouseMoved)
    ultimately have "circles (run cfg evs (mouseMoved a b s)) = fst (construct layout (drawBackgroundGrid (gfx s0)))"
      by (rule Cons.IH[rotated])
    then show ?thesis by (simp add: run_def MouseMoved)
  next
    case WindowResized
    with Cons.prems have "Frame \<in> set evs" by auto
    with Cons.IH[of s] Cons.prems show ?thesis by (simp add: run_def WindowResized)
  qed
qed

text \<open>
  C5: the figure list is built once. The first frame fills the empty list with twelve
  figures; a frame that finds the list filled leaves it as it is, and so does every
  other callback, so after the first frame of a session the list, and with it the four
  seeds of each figure, is the one the first frame built.
\<close>

theorem figures_built_once:
  "(circles s = [] \<longrightarrow> length (circles (draw cfg s)) = 12) \<and>
   (circles s \<noteq> [] \<longrightarrow> circles (draw cfg s) = circles s) \<and>
   (circles s \<noteq> [] \<longrightarrow> circles (run cfg evs s) = circles s) \<and>
   (circles s = [] \<longrightarrow> circles (run cfg (Frame # evs) s) = circles (draw cfg s))"
proof (intro conjI impI)
  assume "circles s = []"
  then show "length (circles (draw cfg s)) = 12"
    by (simp add: circles_draw length_construct layout_length)
next
  assume "circles s \<noteq> []"
  then show "circles (draw cfg s) = circles s" by (simp add: circles_draw)
next
  assume "circles s \<noteq> []"
  then show "circles (run cfg evs s) = circles s" by (rule circles_run)
next
  assume "circles s = []"
  have "circles (run cfg (Frame # evs) s) = circles (run cfg evs (draw cfg s))"
    by (simp add: run_def)
  also have "\<dots> = circles (draw cfg s)"
    by (rule circles_run) (rule circles_draw_nonempty)
  finally show "circles (run cfg (Frame # evs) s) = circles (draw cfg s)" .
qed

lemma circles_initial: "circles (setup_sketch (initial field src)) = []"
  by (simp add: setup_sketch_def initial_def)

theorem figures_built_once_witness:
  "circles session0 = [] \<and>
   length (circles (draw NOISE session0)) = 12 \<and>
   circles (run NOISE (Frame # [MouseMoved 3 4, Frame, WindowResized, Frame]) session0) =
     circles (draw NOISE session0) \<and>
   circles (draw NOISE session0) \<noteq> [] \<and>
   circles (draw NOISE (draw NOISE session0)) = circles (draw NOISE session0) \<and>
   circles (run NOISE [MouseMoved 3 4, Frame] (draw NOISE session0)) =
     circles (draw NOISE session0)"
  using figures_built_once[of session0 NOISE "[MouseMoved 3 4, Frame, WindowResized, Frame]"]
    figures_built_once[of "draw NOISE session0" NOISE "[MouseMoved 3 4, Frame]"]
    circles_draw_nonempty[of NOISE session0]
  by (simp add: session0_def circles_initial)

text \<open>
  C10: the figures are the same in any two sessions. \<open>drawBackgroundGrid\<close> calls
  \<open>randomSeed(9103)\<close> in every frame, the first included, before \<open>drawAllCircles\<close>
  builds the list; so the seeds drawn by the constructors do not depend on the entropy
  source, the noise field, the configuration or the callbacks that came before: once a
  session has had a frame, its figure list equals that of any other such session.
\<close>

theorem figures_same_in_every_session:
  "Frame \<in> set evs \<and> Frame \<in> set evs' \<longrightarrow>
   circles (run cfg evs (setup_sketch (initial field src))) =
   circles (run cfg' evs' (setup_sketch (initial field' src')))"
proof
  assume h: "Frame \<in> set evs \<and> Frame \<in> set evs'"
  have "circles (run cfg evs (setup_sketch (initial field src))) =
        fst (construct layout (drawBackgroundGrid (gfx session0)))"
    using h by (intro circles_run_first_frame circles_initial) simp
  moreover have "circles (run cfg' evs' (setup_sketch (initial field' src'))) =
        fst (construct layout (drawBackgroundGrid (gfx session0)))"
    using h by (intro circles_run_first_frame circles_initial) simp
  ultimately show "circles (run cfg evs (setup_sketch (initial field src))) =
   circles (run cfg' evs' (setup_sketch (initial field' src')))" by simp
qed

theorem figures_same_in_every_session_witness:
  "Frame \<in> set [Frame] \<and> Frame \<in> set [MouseMoved 1 2, Frame, Frame] \<and>
   circles (run NOISE [Frame] (setup_sketch (initial ramp_field (\<lambda>k. 0)))) =
   circles (run (NOISE\<lparr>wiggle := 10\<rparr>) [MouseMoved 1 2, Frame, Frame]
              (setup_sketch (initial (\<lambda>a b. 1 / 2) (\<lambda>k. 1 / 3))))"
  using figures_same_in_every_session[of "[Frame]" "[MouseMoved 1 2, Frame, Frame]" NOISE
      ramp_field "\<lambda>k. 0" "NOISE\<lparr>wiggle := 10\<rparr>" "\<lambda>a b. 1 / 2" "\<lambda>k. 1 / 3"]
  by simp

subsection \<open>Binary64 rounding\<close>

text \<open>
  \<open>binade\<close> is the floor of the binary logarithm, and \<open>fl\<close> returns a multiple of the
  unit in the last place of its argument's binade that is at most half a unit away from
  the argument.
\<close>

lemma int_pow_succ: "(n::int) < 2 ^ k \<Longrightarrow> real_of_int (n + 1) \<le> 2 ^ k"
proof -
  assume "n < 2 ^ k"
  then have "n + 1 \<le> 2 ^ k" by simp
  then have "real_of_int (n + 1) \<le> real_of_int (2 ^ k)" by (simp only: of_int_le_iff)
  then show ?thesis by simp
qed

lemma int_pow_le: "2 ^ k \<le> (n::int) \<Longrightarrow> 2 ^ k \<le> real_of_int n"
proof -
  assume "2 ^ k \<le> n"
  then have "real_of_int (2 ^ k) \<le> real_of_int n" by (simp only: of_int_le_iff)
  then show ?thesis by simp
qed

lemma binade_ge1:
  assumes "1 \<le> a"
  shows "pow2 (binade a) \<le> a \<and> a < pow2 (binade a + 1)"
proof -
  define n where "n = \<lfloor>a\<rfloor>"
  have n: "0 < n" using assms by (simp add: n_def)
  have b1: "1 \<le> bitlen n" using n by (simp add: bitlen_alt_def)
  from bitlen_bounds[OF n] have lo: "2 ^ nat (bitlen n - 1) \<le> n" and hi: "n < 2 ^ nat (bitlen n)"
    by simp_all
  have e: "binade a = bitlen n - 1" using assms by (simp add: binade_def n_def)
  have p1: "pow2 (binade a) = 2 ^ nat (bitlen n - 1)"
    using b1 by (simp add: e pow2_def)
  have p2: "pow2 (binade a + 1) = 2 ^ nat (bitlen n)"
    using b1 by (simp add: e pow2_def)
  have "2 ^ nat (bitlen n - 1) \<le> real_of_int n" using lo by (rule int_pow_le)
  also have "\<dots> \<le> a" by (simp add: n_def)
  finally have 1: "pow2 (binade a) \<le> a" by (simp only: p1)
  have "a < real_of_int (n + 1)" by (simp add: n_def)
  also have "\<dots> \<le> 2 ^ nat (bitlen n)" using hi by (rule int_pow_succ)
  finally have 2: "a < pow2 (binade a + 1)" by (simp only: p2)
  from 1 2 show ?thesis ..
qed

lemma binade_lt1:
  assumes "0 < a" and "a < 1"
  shows "pow2 (binade a) \<le> a \<and> a < pow2 (binade a + 1)"
proof -
  define n where "n = \<lceil>1 / a\<rceil> - 1"
  from assms have y: "1 < 1 / a" by simp
  then have "2 \<le> \<lceil>1 / a\<rceil>" by (simp add: le_ceiling_iff)
  then have n: "0 < n" by (simp add: n_def)
  have b1: "1 \<le> bitlen n" using n by (simp add: bitlen_alt_def)
  from bitlen_bounds[OF n] have lo: "2 ^ nat (bitlen n - 1) \<le> n" and hi: "n < 2 ^ nat (bitlen n)"
    by simp_all
  have e: "binade a = - bitlen n" using assms by (simp add: binade_def n_def)
  have p1: "pow2 (binade a) = 1 / 2 ^ nat (bitlen n)"
    using b1 by (simp add: e pow2_def)
  have p2: "pow2 (binade a + 1) = 1 / 2 ^ nat (bitlen n - 1)"
  proof (cases "bitlen n = 1")
    case True
    then show ?thesis by (simp add: e pow2_def)
  next
    case False
    with b1 have "1 < bitlen n" by simp
    then show ?thesis by (simp add: e pow2_def)
  qed
  have "1 / a \<le> real_of_int (n + 1)" unfolding n_def by simp
  also have "\<dots> \<le> 2 ^ nat (bitlen n)" using hi by (rule int_pow_succ)
  finally have "1 / a \<le> 2 ^ nat (bitlen n)" .
  then have "1 \<le> 2 ^ nat (bitlen n) * a" using assms(1) by (simp add: pos_divide_le_eq)
  then have "1 / 2 ^ nat (bitlen n) \<le> a" by (simp add: pos_divide_le_eq mult.commute)
  then have 1: "pow2 (binade a) \<le> a" by (simp only: p1)
  have "2 ^ nat (bitlen n - 1) \<le> real_of_int n" using lo by (rule int_pow_le)
  also have "real_of_int n < 1 / a" unfolding n_def by linarith
  finally have "2 ^ nat (bitlen n - 1) < 1 / a" .
  then have "2 ^ nat (bitlen n - 1) * a < 1" using assms(1) by (simp add: pos_less_divide_eq)
  then have "a < 1 / 2 ^ nat (bitlen n - 1)" by (simp add: pos_less_divide_eq mult.commute)
  then have 2: "a < pow2 (binade a + 1)" by (simp only: p2)
  from 1 2 show ?thesis ..
qed

lemma binade_bounds:
  "0 < a \<Longrightarrow> pow2 (binade a) \<le> a \<and> a < pow2 (binade a + 1)"
  using binade_ge1[of a] binade_lt1[of a] by (cases "1 \<le> a") simp_all

lemma round_half_even_near: "\<bar>real_of_int (round_half_even r) - r\<bar> \<le> 1 / 2"
proof -
  have "real_of_int \<lfloor>r\<rfloor> \<le> r" and "r < real_of_int \<lfloor>r\<rfloor> + 1" by linarith+
  then show ?thesis
    by (auto simp add: round_half_even_def Let_def abs_le_iff)
qed

lemma pow2_pos: "0 < pow2 e"
  by (simp add: pow2_def)

lemma fl_near:
  "\<bar>fl v - v\<bar> \<le> pow2 (max (binade \<bar>v\<bar> - 52) (- 1074)) / 2"
proof (cases "v = 0")
  case True
  then show ?thesis using pow2_pos[of "max (binade \<bar>v\<bar> - 52) (- 1074)"] by (simp add: fl_def)
next
  case False
  define u where "u = pow2 (max (binade \<bar>v\<bar> - 52) (- 1074))"
  have u: "0 < u" by (simp add: u_def pow2_pos)
  have "fl v - v = (real_of_int (round_half_even (v / u)) - v / u) * u"
    using False u by (simp add: fl_def u_def[symmetric] Let_def left_diff_distrib)
  then have "\<bar>fl v - v\<bar> = \<bar>real_of_int (round_half_even (v / u)) - v / u\<bar> * u"
    using u by (simp add: abs_mult)
  also have "\<dots> \<le> (1 / 2) * u"
    using round_half_even_near[of "v / u"] u by (intro mult_right_mono) simp_all
  finally show ?thesis by (simp add: u_def)
qed

lemma pow2_powr: "pow2 e = 2 powr real_of_int e"
proof (cases "0 \<le> e")
  case True
  then have "2 powr real_of_int e = 2 powr real (nat e)" by simp
  also have "\<dots> = 2 ^ nat e" by (rule powr_realpow) simp
  finally show ?thesis using True by (simp add: pow2_def)
next
  case False
  then have "2 powr real_of_int e = 2 powr (- real (nat (- e)))" by simp
  also have "\<dots> = 1 / 2 powr real (nat (- e))" by (simp add: powr_minus_divide)
  also have "2 powr real (nat (- e)) = 2 ^ nat (- e)" by (rule powr_realpow) simp
  finally show ?thesis using False by (simp add: pow2_def)
qed

lemma pow2_mono: "i \<le> j \<Longrightarrow> pow2 i \<le> pow2 j"
  by (simp add: pow2_powr)

lemma binade_less:
  assumes "0 < a" and "a < pow2 (k + 1)"
  shows "binade a \<le> k"
proof (rule ccontr)
  assume "\<not> binade a \<le> k"
  then have "k + 1 \<le> binade a" by simp
  then have "pow2 (k + 1) \<le> pow2 (binade a)" by (rule pow2_mono)
  also have "\<dots> \<le> a" using binade_bounds[OF assms(1)] by simp
  finally show False using assms(2) by simp
qed

lemma fl_lower:
  assumes "0 < v" and "v < pow2 (k + 1)" and "- 1022 \<le> k"
  shows "v - pow2 (k - 52) / 2 \<le> fl v"
proof -
  have b: "binade \<bar>v\<bar> \<le> k" using assms(1,2) by (simp add: binade_less)
  then have "max (binade \<bar>v\<bar> - 52) (- 1074) \<le> k - 52" using assms(3) by simp
  then have "pow2 (max (binade \<bar>v\<bar> - 52) (- 1074)) \<le> pow2 (k - 52)" by (rule pow2_mono)
  with fl_near[of v] show ?thesis by linarith
qed

lemma fl_upper:
  assumes "0 < v" and "v < pow2 (k + 1)" and "- 1022 \<le> k"
  shows "fl v \<le> v + pow2 (k - 52) / 2"
proof -
  have b: "binade \<bar>v\<bar> \<le> k" using assms(1,2) by (simp add: binade_less)
  then have "max (binade \<bar>v\<bar> - 52) (- 1074) \<le> k - 52" using assms(3) by simp
  then have "pow2 (max (binade \<bar>v\<bar> - 52) (- 1074)) \<le> pow2 (k - 52)" by (rule pow2_mono)
  with fl_near[of v] show ?thesis by linarith
qed

text \<open>
  The rounding is monotone around the values it returns, and the values it returns are
  its fixed points.
\<close>

lemma pow2_add: "pow2 (i + j) = pow2 i * pow2 j"
  by (simp add: pow2_powr powr_add)

lemma pow2_diff: "pow2 i / pow2 j = pow2 (i - j)"
  by (simp add: pow2_powr powr_diff)

lemma pow2_of_int: "0 \<le> n \<Longrightarrow> pow2 n = real_of_int (2 ^ nat n)"
  by (simp add: pow2_def)

lemma pow2_less: "i < j \<Longrightarrow> pow2 i < pow2 j"
  by (simp add: pow2_powr)

lemma round_half_even_of_int: "round_half_even (real_of_int m) = m"
  by (simp add: round_half_even_def)

lemma round_half_even_between:
  "\<lfloor>r\<rfloor> \<le> round_half_even r \<and> round_half_even r \<le> \<lfloor>r\<rfloor> + 1"
  by (simp add: round_half_even_def Let_def)

lemma round_half_even_mono:
  assumes "r \<le> r'"
  shows "round_half_even r \<le> round_half_even r'"
proof (cases "\<lfloor>r\<rfloor> = \<lfloor>r'\<rfloor>")
  case True
  from assms have "r - real_of_int \<lfloor>r'\<rfloor> \<le> r' - real_of_int \<lfloor>r'\<rfloor>" by simp
  then show ?thesis
    using True by (simp add: round_half_even_def Let_def)
next
  case False
  with assms have "\<lfloor>r\<rfloor> < \<lfloor>r'\<rfloor>" using floor_mono[OF assms] by linarith
  then have "\<lfloor>r\<rfloor> + 1 \<le> \<lfloor>r'\<rfloor>" by simp
  with round_half_even_between[of r] round_half_even_between[of r'] show ?thesis by linarith
qed

lemma binade_mono:
  assumes "0 < a" and "a \<le> b"
  shows "binade a \<le> binade b"
proof -
  have "0 < b" using assms by simp
  from binade_bounds[OF this] assms(2) have "a < pow2 (binade b + 1)" by simp
  with assms(1) show ?thesis by (rule binade_less)
qed

lemma fl_pos_eq:
  "0 < v \<Longrightarrow> fl v = real_of_int (round_half_even (v / pow2 (max (binade v - 52) (- 1074)))) *
     pow2 (max (binade v - 52) (- 1074))"
  by (simp add: fl_def Let_def)

lemma fl_nonneg:
  assumes "0 \<le> v"
  shows "0 \<le> fl v"
proof (cases "v = 0")
  case True
  then show ?thesis by (simp add: fl_def)
next
  case False
  with assms have v: "0 < v" by simp
  let ?u = "pow2 (max (binade v - 52) (- 1074))"
  have "0 \<le> v / ?u" using v pow2_pos[of "max (binade v - 52) (- 1074)"] by simp
  from round_half_even_mono[OF this] have "0 \<le> round_half_even (v / ?u)"
    using round_half_even_of_int[of 0] by simp
  then show ?thesis
    using pow2_pos[of "max (binade v - 52) (- 1074)"] by (simp add: fl_pos_eq[OF v])
qed

text \<open>A normal value is rounded within its binade.\<close>

lemma fl_ge_binade:
  assumes "0 < v" and "- 1074 \<le> binade v - 52"
  shows "pow2 (binade v) \<le> fl v"
proof -
  let ?k = "binade v - 52"
  have k: "max (binade v - 52) (- 1074) = ?k" using assms(2) by simp
  have u: "0 < pow2 ?k" by (rule pow2_pos)
  have "pow2 (binade v) / pow2 ?k = real_of_int (2 ^ 52)"
    by (simp add: pow2_diff pow2_of_int)
  moreover have "pow2 (binade v) / pow2 ?k \<le> v / pow2 ?k"
    using binade_bounds[OF assms(1)] u by (simp add: divide_right_mono)
  ultimately have "real_of_int (2 ^ 52) \<le> v / pow2 ?k" by simp
  from round_half_even_mono[OF this] have "2 ^ 52 \<le> round_half_even (v / pow2 ?k)"
    by (simp only: round_half_even_of_int)
  then have "real_of_int (2 ^ 52) \<le> real_of_int (round_half_even (v / pow2 ?k))"
    by (simp only: of_int_le_iff)
  then have "real_of_int (2 ^ 52) * pow2 ?k \<le> fl v"
    using u by (simp add: fl_pos_eq[OF assms(1)] k)
  moreover have "real_of_int (2 ^ 52) * pow2 ?k = pow2 (binade v)"
    using pow2_add[of 52 ?k] by (simp add: pow2_of_int)
  ultimately show ?thesis by simp
qed

text \<open>Rounding does not pass a power of two that lies on the grid of the argument.\<close>

lemma fl_le_pow2:
  assumes "0 < v" and "v \<le> pow2 e" and "max (binade v - 52) (- 1074) \<le> e"
  shows "fl v \<le> pow2 e"
proof -
  let ?k = "max (binade v - 52) (- 1074)"
  have u: "0 < pow2 ?k" by (rule pow2_pos)
  have "v / pow2 ?k \<le> pow2 e / pow2 ?k" using assms(2) u by (simp add: divide_right_mono)
  also have "pow2 e / pow2 ?k = real_of_int (2 ^ nat (e - ?k))"
    using assms(3) by (simp only: pow2_diff) (simp add: pow2_of_int)
  finally have "round_half_even (v / pow2 ?k) \<le> 2 ^ nat (e - ?k)"
    using round_half_even_mono round_half_even_of_int by metis
  then have "real_of_int (round_half_even (v / pow2 ?k)) \<le> real_of_int (2 ^ nat (e - ?k))"
    by (simp only: of_int_le_iff)
  then have "fl v \<le> real_of_int (2 ^ nat (e - ?k)) * pow2 ?k"
    using u by (simp add: fl_pos_eq[OF assms(1)])
  also have "real_of_int (2 ^ nat (e - ?k)) * pow2 ?k = pow2 (e - ?k) * pow2 ?k"
    using assms(3) by (simp add: pow2_of_int)
  also have "\<dots> = pow2 e" using pow2_add[of "e - ?k" ?k] by simp
  finally show ?thesis .
qed

text \<open>A value at or above a rounded value is not rounded below it.\<close>

lemma fl_above:
  assumes "0 \<le> v" and "fl v \<le> w"
  shows "fl v \<le> fl w"
proof (cases "0 < fl v")
  case False
  with fl_nonneg[OF assms(1)] have z: "fl v = 0" by simp
  with assms(2) have "0 \<le> fl w" by (intro fl_nonneg) simp
  with z show ?thesis by simp
next
  case True
  then have v: "0 < v" using assms(1) by (cases "v = 0") (simp_all add: fl_def)
  from True assms(2) have w: "0 < w" by simp
  let ?kv = "max (binade v - 52) (- 1074)"
  let ?kw = "max (binade w - 52) (- 1074)"
  consider (eq) "?kv = ?kw" | (lt) "?kv < ?kw" | (gt) "?kw < ?kv" by linarith
  then show ?thesis
  proof cases
    case eq
    let ?m = "round_half_even (v / pow2 ?kv)"
    have u: "0 < pow2 ?kv" by (rule pow2_pos)
    have fv: "fl v = real_of_int ?m * pow2 ?kv" by (rule fl_pos_eq[OF v])
    with assms(2) u have "real_of_int ?m \<le> w / pow2 ?kv" by (simp add: pos_le_divide_eq)
    from round_half_even_mono[OF this] have "?m \<le> round_half_even (w / pow2 ?kv)"
      by (simp only: round_half_even_of_int)
    then have "real_of_int ?m \<le> real_of_int (round_half_even (w / pow2 ?kv))"
      by (simp only: of_int_le_iff)
    then have "real_of_int ?m * pow2 ?kv \<le> real_of_int (round_half_even (w / pow2 ?kv)) * pow2 ?kv"
      using u by (simp add: mult_right_mono)
    then show ?thesis unfolding fv by (simp add: fl_pos_eq[OF w] eq)
  next
    case lt
    then have n: "- 1074 \<le> binade w - 52" and kw: "?kw = binade w - 52" by linarith+
    from lt have b: "binade v < binade w" by linarith
    then have "binade v + 1 \<le> binade w" by simp
    then have "pow2 (binade v + 1) \<le> pow2 (binade w)" by (rule pow2_mono)
    with binade_bounds[OF v] have "v \<le> pow2 (binade w)" by simp
    moreover have "?kv \<le> binade w" using lt kw by linarith
    ultimately have "fl v \<le> pow2 (binade w)" using v by (intro fl_le_pow2) simp_all
    also have "\<dots> \<le> fl w" using w n by (rule fl_ge_binade)
    finally show ?thesis .
  next
    case gt
    then have n: "- 1074 \<le> binade v - 52" by linarith
    from gt have "binade w < binade v" by linarith
    then have "binade w + 1 \<le> binade v" by simp
    then have "pow2 (binade w + 1) \<le> pow2 (binade v)" by (rule pow2_mono)
    with binade_bounds[OF w] have "w < pow2 (binade v)" by simp
    also have "\<dots> \<le> fl v" using v n by (rule fl_ge_binade)
    finally show ?thesis using assms(2) by simp
  qed
qed

text \<open>A value at or below a rounded value is not rounded above it.\<close>

lemma fl_below:
  assumes "0 \<le> v" and "0 \<le> w" and "w \<le> fl v"
  shows "fl w \<le> fl v"
proof (cases "w = 0")
  case True
  then show ?thesis using fl_nonneg[OF assms(1)] by (simp add: fl_def)
next
  case False
  with assms(2) have w: "0 < w" by simp
  with assms(3) have "0 < fl v" by simp
  then have v: "0 < v" using assms(1) by (cases "v = 0") (simp_all add: fl_def)
  let ?kv = "max (binade v - 52) (- 1074)"
  let ?kw = "max (binade w - 52) (- 1074)"
  consider (eq) "?kv = ?kw" | (lt) "?kw < ?kv" | (gt) "?kv < ?kw" by linarith
  then show ?thesis
  proof cases
    case eq
    let ?m = "round_half_even (v / pow2 ?kv)"
    have u: "0 < pow2 ?kv" by (rule pow2_pos)
    have fv: "fl v = real_of_int ?m * pow2 ?kv" by (rule fl_pos_eq[OF v])
    with assms(3) u have "w / pow2 ?kv \<le> real_of_int ?m" by (simp add: pos_divide_le_eq)
    from round_half_even_mono[OF this] have "round_half_even (w / pow2 ?kv) \<le> ?m"
      by (simp only: round_half_even_of_int)
    then have "real_of_int (round_half_even (w / pow2 ?kv)) \<le> real_of_int ?m"
      by (simp only: of_int_le_iff)
    then have "real_of_int (round_half_even (w / pow2 ?kv)) * pow2 ?kv \<le> real_of_int ?m * pow2 ?kv"
      using u by (simp add: mult_right_mono)
    then show ?thesis unfolding fv by (simp add: fl_pos_eq[OF w] eq)
  next
    case lt
    then have n: "- 1074 \<le> binade v - 52" and kv: "?kv = binade v - 52" by linarith+
    from lt have "binade w < binade v" by linarith
    then have "binade w + 1 \<le> binade v" by simp
    then have "pow2 (binade w + 1) \<le> pow2 (binade v)" by (rule pow2_mono)
    with binade_bounds[OF w] have "w \<le> pow2 (binade v)" by simp
    moreover have "?kw \<le> binade v" using lt kv by linarith
    ultimately have "fl w \<le> pow2 (binade v)" using w by (intro fl_le_pow2) simp_all
    also have "\<dots> \<le> fl v" using v n by (rule fl_ge_binade)
    finally show ?thesis .
  next
    case gt
    then have n: "- 1074 \<le> binade w - 52" and kw: "?kw = binade w - 52" by linarith+
    from gt have "binade v < binade w" by linarith
    then have "binade v + 1 \<le> binade w" by simp
    then have "pow2 (binade v + 1) \<le> pow2 (binade w)" by (rule pow2_mono)
    with binade_bounds[OF v] have "v \<le> pow2 (binade w)" by simp
    moreover have "?kv \<le> binade w" using gt kw by linarith
    ultimately have "fl v \<le> pow2 (binade w)" using v by (intro fl_le_pow2) simp_all
    moreover have "pow2 (binade w) \<le> w" using binade_bounds[OF w] by simp
    ultimately have e: "w = pow2 (binade w)" and e': "fl v = pow2 (binade w)"
      using assms(3) by simp_all
    have "?kw \<le> binade w" using kw by linarith
    with w e have "fl w \<le> pow2 (binade w)" by (intro fl_le_pow2) simp_all
    then show ?thesis by (simp only: e')
  qed
qed

text \<open>Binary64 values are fixed points of the rounding.\<close>

lemma fl_idem: "0 \<le> v \<Longrightarrow> fl (fl v) = fl v"
proof -
  assume v: "0 \<le> v"
  have "fl v \<le> fl (fl v)" using v by (rule fl_above) simp
  moreover have "fl (fl v) \<le> fl v" using v fl_nonneg[OF v] by (rule fl_below) simp
  ultimately show ?thesis by simp
qed

text \<open>
  Evaluation of the rounding on numerals. As a check of \<open>fl\<close> against the arithmetic
  of JavaScript: \<open>0.1 + 0.2\<close> is \<open>0.30000000000000004\<close>, the binary64 value
  \<open>5404319552844596 / 2 ^ 54\<close>.
\<close>

lemmas fl_eval = fl_def binade_def pow2_def round_half_even_def compute_bitlen Let_def

lemma funpow_numeral_apply: "(f ^^ numeral n) a = (f ^^ pred_numeral n) (f a)"
  by (simp add: numeral_eq_Suc funpow_swap1)

lemma fl_speed: "fl (speed NOISE) = 5764607523034235 / 2 ^ 58"
  by (simp add: NOISE_def fl_eval)

lemma fl_one: "fl 1 = 1"
  by (simp add: fl_eval)

lemma fl_tenths: "fadd (fl (1 / 10)) (fl (2 / 10)) = 5404319552844596 / 2 ^ 54"
  by (simp add: fadd_def fl_eval)

text \<open>
  The mapping of the pointer at \<open>(400, 400)\<close>, \<open>(0, 0)\<close> and \<open>(800, 800)\<close> on the
  800 by 800 canvas, computed in binary64, returns the binary64 values of \<open>1.25\<close> and
  \<open>1.15\<close>, of \<open>0.5\<close> and \<open>0.3\<close>, and \<open>2\<close> twice: the rounding does not change
  the values the pointer input mapping is expected to give at these points.
\<close>

lemma map_f64_pointer:
  "map_f64 400 0 800 (fl 0.5) (fl 2.0) = fl 1.25"
  "map_f64 400 0 800 (fl 0.3) (fl 2.0) = fl 1.15"
  "map_f64 0 0 800 (fl 0.5) (fl 2.0) = fl 0.5"
  "map_f64 0 0 800 (fl 0.3) (fl 2.0) = fl 0.3"
  "map_f64 800 0 800 (fl 0.5) (fl 2.0) = 2"
  "map_f64 800 0 800 (fl 0.3) (fl 2.0) = 2"
  by (simp_all add: map_f64_def fadd_def fmul_def fsub_def fdiv_def fl_eval)

subsection \<open>The clock\<close>

lemma t_drawAllCircles: "t (drawAllCircles cfg tt s) = t s"
  "timeScale (drawAllCircles cfg tt s) = timeScale s"
  by (simp_all add: drawAllCircles_def Let_def split_beta)

lemma t_draw: "t (draw cfg s) = clock_f64 cfg (timeScale s) (t s)"
  by (simp add: draw_def Let_def t_drawAllCircles)

lemma timeScale_draw: "timeScale (draw cfg s) = timeScale s"
  by (simp add: draw_def Let_def t_drawAllCircles)

lemma t_mouseMoved: "t (mouseMoved a b s) = t s"
  by (simp add: mouseMoved_def Let_def)

lemma timeScale_frames: "timeScale ((draw cfg ^^ n) s) = timeScale s"
  by (induction n) (simp_all add: timeScale_draw)

lemma t_frames: "t ((draw cfg ^^ n) s) = (clock_f64 cfg (timeScale s) ^^ n) (t s)"
  by (induction n) (simp_all add: t_draw timeScale_frames)

lemma clock_f64_NOISE: "clock_f64 NOISE ts tv = fl (tv + fl (fl (speed NOISE) * fl ts))"
  by (simp add: clock_f64_def fadd_def fmul_def NOISE_def)

lemma binade_ge:
  assumes "0 < a" and "pow2 k \<le> a"
  shows "k \<le> binade a"
proof (rule ccontr)
  assume "\<not> k \<le> binade a"
  then have "binade a + 1 \<le> k" by simp
  then have "pow2 (binade a + 1) \<le> pow2 k" by (rule pow2_mono)
  with binade_bounds[OF assms(1)] assms(2) show False by simp
qed

text \<open>The rounded step \<open>0.02 * timeScale\<close>, for a time scale in \<open>[0.3, 2.0]\<close>.\<close>

lemma step_f64:
  assumes "3 / 10 \<le> ts" and "ts \<le> 2"
  shows "1 / 256 \<le> fl (fl (speed NOISE) * fl ts)"
    and "fl (fl (speed NOISE) * fl ts) \<le> 1 / 16"
    and "\<bar>fl (fl (speed NOISE) * fl ts) - speed NOISE * ts\<bar> \<le> 1 / 2 ^ 55"
proof -
  have s: "fl (speed NOISE) = 5764607523034235 / 2 ^ 58" by (rule fl_speed)
  have s': "speed NOISE = 1 / 50" by (simp add: NOISE_def)
  have ts2: "ts < pow2 (1 + 1)" using assms(2) by (simp add: pow2_def)
  have ts0: "0 < ts" using assms(1) by simp
  have "ts - pow2 (1 - 52) / 2 \<le> fl ts" using ts0 ts2 by (rule fl_lower) simp
  then have b_lo: "ts - 1 / 2 ^ 52 \<le> fl ts" by (simp add: pow2_def)
  have "fl ts \<le> ts + pow2 (1 - 52) / 2" using ts0 ts2 by (rule fl_upper) simp
  then have b_hi: "fl ts \<le> ts + 1 / 2 ^ 52" by (simp add: pow2_def)
  define p where "p = fl (speed NOISE) * fl ts"
  have p: "p = 5764607523034235 / 2 ^ 58 * fl ts" by (simp add: p_def s)
  have p_lo: "1 / 200 \<le> p" unfolding p using b_lo assms(1) by simp
  have p_hi: "p \<le> 1 / 20" unfolding p using b_hi assms(2) by simp
  have p2: "p < pow2 (- 5 + 1)" using p_hi by (simp add: pow2_def)
  have p0: "0 < p" using p_lo by simp
  have "p - pow2 (- 5 - 52) / 2 \<le> fl p" using p0 p2 by (rule fl_lower) simp
  then have d_lo: "p - 1 / 2 ^ 58 \<le> fl p" by (simp add: pow2_def)
  have "fl p \<le> p + pow2 (- 5 - 52) / 2" using p0 p2 by (rule fl_upper) simp
  then have d_hi: "fl p \<le> p + 1 / 2 ^ 58" by (simp add: pow2_def)
  show "1 / 256 \<le> fl (fl (speed NOISE) * fl ts)"
    using d_lo p_lo unfolding p_def by simp
  show "fl (fl (speed NOISE) * fl ts) \<le> 1 / 16"
    using d_hi p_hi unfolding p_def by simp
  define b where "b = fl ts"
  define q where "q = fl p"
  have 1: "p = 5764607523034235 / 288230376151711744 * b" by (simp add: p b_def)
  have 2: "ts - 1 / 4503599627370496 \<le> b" "b \<le> ts + 1 / 4503599627370496"
    using b_lo b_hi by (simp_all add: b_def)
  have 3: "p - 1 / 288230376151711744 \<le> q" "q \<le> p + 1 / 288230376151711744"
    using d_lo d_hi by (simp_all add: q_def)
  have "q - 1 / 50 * ts \<le> 1 / 36028797018963968" and "- (1 / 36028797018963968) \<le> q - 1 / 50 * ts"
    using 1 2 3 assms by linarith+
  then have "\<bar>q - 1 / 50 * ts\<bar> \<le> 1 / 36028797018963968" by linarith
  then have "\<bar>q - 1 / 50 * ts\<bar> \<le> 1 / 2 ^ 55" by simp
  then show "\<bar>fl (fl (speed NOISE) * fl ts) - speed NOISE * ts\<bar> \<le> 1 / 2 ^ 55"
    unfolding q_def p_def s' by simp
qed

lemma clock_f64_error:
  assumes "0 \<le> tv" and "3 / 10 \<le> ts" and "ts \<le> 2"
  shows "\<bar>clock_f64 NOISE ts tv - (tv + speed NOISE * ts)\<bar> \<le> (tv + 1) / 2 ^ 52"
proof -
  define d where "d = fl (fl (speed NOISE) * fl ts)"
  define v where "v = tv + d"
  have d: "1 / 256 \<le> d" "d \<le> 1 / 16" "\<bar>d - speed NOISE * ts\<bar> \<le> 1 / 2 ^ 55"
    unfolding d_def using assms(2,3) by (rule step_f64)+
  have v0: "0 < v" using assms(1) d(1) by (simp add: v_def)
  have "pow2 (- 8) \<le> v" using assms(1) d(1) by (simp add: v_def pow2_def)
  with v0 have b: "- 8 \<le> binade v" by (rule binade_ge)
  then have k: "max (binade \<bar>v\<bar> - 52) (- 1074) = binade v + (- 52)" using v0 by simp
  have "pow2 (binade v + (- 52)) = pow2 (binade v) * pow2 (- 52)" by (rule pow2_add)
  also have "\<dots> \<le> v * pow2 (- 52)"
    using binade_bounds[OF v0] pow2_pos[of "- 52"] by (simp add: mult_right_mono)
  finally have u: "pow2 (max (binade \<bar>v\<bar> - 52) (- 1074)) \<le> v / 2 ^ 52"
    by (simp add: k pow2_def)
  have n: "\<bar>fl v - v\<bar> \<le> v / 2 ^ 53" using fl_near[of v] u by simp
  define w where "w = fl v"
  define e where "e = speed NOISE * ts"
  have n': "\<bar>w - v\<bar> \<le> v / 9007199254740992" using n by (simp add: w_def)
  have 1: "w - v \<le> v / 9007199254740992" "v - w \<le> v / 9007199254740992"
    using n' by linarith+
  have d': "\<bar>d - e\<bar> \<le> 1 / 36028797018963968" using d(3) by (simp add: e_def)
  have 2: "d - e \<le> 1 / 36028797018963968" "e - d \<le> 1 / 36028797018963968"
    using d' by linarith+
  have 3: "v = tv + d" by (rule v_def)
  have "w - (tv + e) \<le> (tv + 1) / 4503599627370496"
    and "- ((tv + 1) / 4503599627370496) \<le> w - (tv + e)"
    using 1 2 3 d(2) assms(1) by argo+
  then have "\<bar>w - (tv + e)\<bar> \<le> (tv + 1) / 4503599627370496" by linarith
  then have "\<bar>w - (tv + e)\<bar> \<le> (tv + 1) / 2 ^ 52" by simp
  then show ?thesis by (simp add: clock_f64_NOISE w_def e_def v_def d_def)
qed

lemma clock_f64_step: "clock_f64 NOISE 1 tv = fl (tv + 5764607523034235 / 288230376151711744)"
proof -
  have h: "fmul (fl (speed NOISE)) (fl 1) = 5764607523034235 / 288230376151711744"
    unfolding fl_speed fl_one fmul_def by (simp add: fl_eval)
  have "animate NOISE" by (simp add: NOISE_def)
  then show ?thesis unfolding clock_f64_def fadd_def h by simp
qed

lemma clock_f64_100: "(clock_f64 NOISE 1 ^^ 100) 0 = 2 + 3 / 2 ^ 51"
  by (simp add: funpow_numeral_apply clock_f64_step fl_eval)

lemma clock_exact_frames: "(clock_exact NOISE ts ^^ n) tv = tv + real n * (speed NOISE * ts)"
  by (induction n) (simp_all add: clock_exact_def NOISE_def algebra_simps)

text \<open>The third frame of a session advances the clock by less than the step.\<close>

lemma clock_f64_third_frame:
  "(clock_f64 NOISE 1 ^^ 2) 0 = 5764607523034235 / 2 ^ 57"
  "(clock_f64 NOISE 1 ^^ 3) 0 = 8646911284551352 / 2 ^ 57"
  by (simp_all add: funpow_numeral_apply clock_f64_step fl_eval)

text \<open>At \<open>2 ^ 53\<close> a frame with time scale \<open>1\<close> leaves the clock where it is.\<close>

lemma clock_f64_stalls: "clock_f64 NOISE 1 (2 ^ 53) = 2 ^ 53"
  by (simp add: clock_f64_step fl_eval)

lemma clock_f64_nondecreasing:
  assumes "fl tv = tv" and "0 \<le> tv" and "0 \<le> ts"
  shows "tv \<le> clock_f64 NOISE ts tv"
    and "fl (clock_f64 NOISE ts tv) = clock_f64 NOISE ts tv"
    and "0 \<le> clock_f64 NOISE ts tv"
proof -
  define d where "d = fl (fl (speed NOISE) * fl ts)"
  have "0 \<le> fl (speed NOISE)" by (intro fl_nonneg) (simp add: NOISE_def)
  moreover have "0 \<le> fl ts" using assms(3) by (rule fl_nonneg)
  ultimately have "0 \<le> fl (speed NOISE) * fl ts" by (rule mult_nonneg_nonneg)
  then have d: "0 \<le> d" unfolding d_def by (rule fl_nonneg)
  have c: "clock_f64 NOISE ts tv = fl (tv + d)" by (simp add: clock_f64_NOISE d_def)
  have "fl tv \<le> fl (tv + d)" using assms(2) by (rule fl_above) (simp add: assms(1) d)
  then show "tv \<le> clock_f64 NOISE ts tv" by (simp add: c assms(1))
  then show "0 \<le> clock_f64 NOISE ts tv" using assms(2) by simp
  show "fl (clock_f64 NOISE ts tv) = clock_f64 NOISE ts tv"
    unfolding c using assms(2) d by (intro fl_idem) simp
qed

lemma clock_f64_zero: "fl tv = tv \<Longrightarrow> clock_f64 NOISE 0 tv = tv"
  by (simp add: clock_f64_NOISE fl_def)

lemma clock_f64_zero_frames: "fl tv = tv \<Longrightarrow> (clock_f64 NOISE 0 ^^ n) tv = tv"
  by (induction n) (simp_all add: clock_f64_zero)

lemma clock_f64_increases:
  assumes "0 \<le> tv" and "tv \<le> 2 ^ 40" and "3 / 10 \<le> ts" and "ts \<le> 2"
  shows "tv < clock_f64 NOISE ts tv" and "clock_f64 NOISE ts tv \<le> tv + 1"
proof -
  define d where "d = fl (fl (speed NOISE) * fl ts)"
  have d: "1 / 256 \<le> d" "d \<le> 1 / 16"
    unfolding d_def using assms(3,4) by (rule step_f64)+
  define v where "v = tv + d"
  have v_pos: "0 < v" using assms(1) d(1) by (simp add: v_def)
  have v2: "v < pow2 (40 + 1)" using assms(2) d(2) by (simp add: v_def pow2_def)
  have c: "clock_f64 NOISE ts tv = fl v" by (simp add: clock_f64_NOISE v_def d_def)
  have "v - pow2 (40 - 52) / 2 \<le> fl v" using v_pos v2 by (rule fl_lower) simp
  then show "tv < clock_f64 NOISE ts tv" using d(1) by (simp add: c v_def pow2_def)
  have "fl v \<le> v + pow2 (40 - 52) / 2" using v_pos v2 by (rule fl_upper) simp
  then show "clock_f64 NOISE ts tv \<le> tv + 1" using d(2) by (simp add: c v_def pow2_def)
qed

lemma clock_f64_frames_increase:
  assumes "0 \<le> tv" and "3 / 10 \<le> ts" and "ts \<le> 2"
  shows "tv + real n \<le> 2 ^ 40 \<Longrightarrow>
         tv \<le> (clock_f64 NOISE ts ^^ n) tv \<and> (clock_f64 NOISE ts ^^ n) tv \<le> tv + real n \<and>
         (0 < n \<longrightarrow> tv < (clock_f64 NOISE ts ^^ n) tv)"
proof (induction n)
  case 0
  then show ?case by simp
next
  case (Suc n)
  let ?c = "(clock_f64 NOISE ts ^^ n) tv"
  from Suc.prems have "tv + real n \<le> 2 ^ 40" by simp
  from Suc.IH[OF this] have ih: "tv \<le> ?c" "?c \<le> tv + real n" by simp_all
  have r: "0 \<le> ?c" "?c \<le> 2 ^ 40" using ih assms(1) Suc.prems by simp_all
  from clock_f64_increases[OF r assms(2,3)]
  have "?c < clock_f64 NOISE ts ?c" "clock_f64 NOISE ts ?c \<le> ?c + 1" by simp_all
  with ih show ?case by simp
qed

lemma session0_globals: "t session0 = 0" "timeScale session0 = 1" "noiseStrength session0 = 1"
  by (simp_all add: session0_def setup_sketch_def initial_def)

lemma run_append: "run cfg (evs @ evs') s = run cfg evs' (run cfg evs s)"
  by (simp add: run_def)

lemma fl_zero: "fl 0 = 0"
  by (simp add: fl_def)

lemma timeScale_handle: "0 \<le> timeScale s \<Longrightarrow> 0 \<le> timeScale (handle cfg e s)"
proof (cases e)
  case (MouseMoved a b)
  have "0.3 \<le> timeScale (mouseMoved a b s)"
    using constrain_range[of "0.3" "2.0" "map_p5 b 0 (height (gfx s)) 0.3 2"]
    by (simp add: timeScale_mouseMoved)
  then show ?thesis by (simp add: MouseMoved)
qed (simp_all add: timeScale_draw)

text \<open>
  Along a session the clock holds a non-negative binary64 value and no callback
  decreases it.
\<close>

lemma t_handle:
  assumes "fl (t s) = t s" and "0 \<le> t s" and "0 \<le> timeScale s"
  shows "t s \<le> t (handle NOISE e s) \<and> fl (t (handle NOISE e s)) = t (handle NOISE e s)"
proof (cases e)
  case Frame
  with clock_f64_nondecreasing[OF assms] show ?thesis by (simp add: t_draw)
next
  case (MouseMoved a b)
  with assms show ?thesis by (simp add: t_mouseMoved)
next
  case WindowResized
  with assms show ?thesis by simp
qed

lemma t_run:
  "fl (t s) = t s \<Longrightarrow> 0 \<le> t s \<Longrightarrow> 0 \<le> timeScale s \<Longrightarrow>
   t s \<le> t (run NOISE evs s) \<and> fl (t (run NOISE evs s)) = t (run NOISE evs s) \<and>
   0 \<le> timeScale (run NOISE evs s)"
proof (induction evs arbitrary: s)
  case Nil
  then show ?case by (simp add: run_def)
next
  case (Cons e evs)
  let ?s = "handle NOISE e s"
  from t_handle[OF Cons.prems, of e] have h: "t s \<le> t ?s" "fl (t ?s) = t ?s" by simp_all
  have p: "0 \<le> t ?s" using h(1) Cons.prems(2) by simp
  have q: "0 \<le> timeScale ?s" using Cons.prems(3) by (rule timeScale_handle)
  from Cons.IH[OF h(2) p q] h(1) show ?case by (simp add: run_def)
qed

text \<open>
  C6, as stated: on every frame the clock advances by exactly \<open>NOISE.speed * timeScale\<close>,
  it never decreases, and any number of frames with a positive time scale strictly
  increases it. The sum is rounded: in the third frame of a session, with time scale
  \<open>1\<close>, the clock advances by \<open>5764607523034234 / 2 ^ 58\<close>, which is neither \<open>0.02\<close>
  nor the binary64 value of \<open>0.02\<close>. (And at \<open>2 ^ 53\<close> a frame no longer moves the
  clock, by \<open>clock_f64_stalls\<close>.)
\<close>

theorem clock_advances_counterexample:
  "t ((draw NOISE ^^ 3) session0) - t ((draw NOISE ^^ 2) session0) \<noteq>
     speed NOISE * timeScale ((draw NOISE ^^ 2) session0) \<and>
   t ((draw NOISE ^^ 3) session0) - t ((draw NOISE ^^ 2) session0) \<noteq>
     fl (speed NOISE) * timeScale ((draw NOISE ^^ 2) session0)"
  by (simp add: t_frames timeScale_frames session0_globals clock_f64_third_frame fl_speed)
     (simp add: NOISE_def)

text \<open>
  C6, amended: a frame sets the clock to the binary64 sum of the clock and the binary64
  product of \<open>NOISE.speed\<close>, the constant \<open>0.02\<close>, and the time scale, and changes no
  time scale; for a clock \<open>t \<ge> 0\<close> and a time scale in \<open>[0.3, 2.0]\<close> the new clock is
  within \<open>(t + 1) / 2 ^ 52\<close> of \<open>t + NOISE.speed * timeScale\<close>. No callback resets or
  decreases the clock: along any session that starts with a non-negative binary64 clock
  and a non-negative time scale, the clock after more callbacks is at least the clock
  before them. \<open>n > 0\<close> frames with a time scale in \<open>[0.3, 2.0]\<close> strictly increase a
  clock \<open>t \<ge> 0\<close> with \<open>t + n \<le> 2 ^ 40\<close>, and with time scale \<open>0\<close> the clock is
  unchanged.
\<close>

theorem clock_advances:
  "t (draw NOISE s) = fadd (t s) (fmul (fl (speed NOISE)) (fl (timeScale s))) \<and>
   speed NOISE = 0.02 \<and>
   timeScale (draw NOISE s) = timeScale s \<and>
   (0 \<le> t s \<and> 3 / 10 \<le> timeScale s \<and> timeScale s \<le> 2 \<longrightarrow>
      \<bar>t (draw NOISE s) - (t s + speed NOISE * timeScale s)\<bar> \<le> (t s + 1) / 2 ^ 52) \<and>
   (fl (t s) = t s \<and> 0 \<le> t s \<and> 0 \<le> timeScale s \<longrightarrow>
      t (run NOISE evs s) \<le> t (run NOISE (evs @ later) s)) \<and>
   (0 \<le> t s \<and> t s + real n \<le> 2 ^ 40 \<and> 3 / 10 \<le> timeScale s \<and> timeScale s \<le> 2 \<and> 0 < n \<longrightarrow>
      t s < t ((draw NOISE ^^ n) s)) \<and>
   (fl (t s) = t s \<and> timeScale s = 0 \<longrightarrow> t ((draw NOISE ^^ n) s) = t s)"
proof (intro conjI impI)
  show "t (draw NOISE s) = fadd (t s) (fmul (fl (speed NOISE)) (fl (timeScale s)))"
    by (simp add: t_draw clock_f64_def) (simp add: NOISE_def)
  show "speed NOISE = 0.02" by (simp add: NOISE_def)
  show "timeScale (draw NOISE s) = timeScale s" by (rule timeScale_draw)
next
  assume "0 \<le> t s \<and> 3 / 10 \<le> timeScale s \<and> timeScale s \<le> 2"
  then have "\<bar>clock_f64 NOISE (timeScale s) (t s) - (t s + speed NOISE * timeScale s)\<bar>
      \<le> (t s + 1) / 2 ^ 52"
    by (intro clock_f64_error) simp_all
  then show "\<bar>t (draw NOISE s) - (t s + speed NOISE * timeScale s)\<bar> \<le> (t s + 1) / 2 ^ 52"
    by (simp only: t_draw)
next
  assume h: "fl (t s) = t s \<and> 0 \<le> t s \<and> 0 \<le> timeScale s"
  let ?s = "run NOISE evs s"
  from h t_run[of s evs] have 1: "t s \<le> t ?s" "fl (t ?s) = t ?s" "0 \<le> timeScale ?s"
    by simp_all
  have 2: "0 \<le> t ?s" using 1(1) h by simp
  from t_run[OF 1(2) 2 1(3), of later] show "t ?s \<le> t (run NOISE (evs @ later) s)"
    by (simp add: run_append)
next
  assume h: "0 \<le> t s \<and> t s + real n \<le> 2 ^ 40 \<and> 3 / 10 \<le> timeScale s \<and> timeScale s \<le> 2 \<and> 0 < n"
  then have "t s < (clock_f64 NOISE (timeScale s) ^^ n) (t s)"
    using clock_f64_frames_increase[of "t s" "timeScale s" n] by simp
  then show "t s < t ((draw NOISE ^^ n) s)" by (simp add: t_frames)
next
  assume "fl (t s) = t s \<and> timeScale s = 0"
  then show "t ((draw NOISE ^^ n) s) = t s" by (simp add: t_frames clock_f64_zero_frames)
qed

theorem clock_advances_witness:
  "(0 \<le> t session0 \<and> 3 / 10 \<le> timeScale session0 \<and> timeScale session0 \<le> 2) \<and>
   \<bar>t (draw NOISE session0) - (t session0 + speed NOISE * timeScale session0)\<bar>
     \<le> (t session0 + 1) / 2 ^ 52 \<and>
   (fl (t session0) = t session0 \<and> 0 \<le> t session0 \<and> 0 \<le> timeScale session0) \<and>
   t (run NOISE [Frame, MouseMoved 3 4] session0) \<le>
     t (run NOISE ([Frame, MouseMoved 3 4] @ [Frame]) session0) \<and>
   (0 \<le> t session0 \<and> t session0 + real 3 \<le> 2 ^ 40 \<and> 3 / 10 \<le> timeScale session0 \<and>
    timeScale session0 \<le> 2 \<and> (0::nat) < 3) \<and>
   t session0 < t ((draw NOISE ^^ 3) session0) \<and>
   (fl (t (session0\<lparr>timeScale := 0\<rparr>)) = t (session0\<lparr>timeScale := 0\<rparr>) \<and>
    timeScale (session0\<lparr>timeScale := 0\<rparr>) = 0) \<and>
   t ((draw NOISE ^^ 3) (session0\<lparr>timeScale := 0\<rparr>)) = t (session0\<lparr>timeScale := 0\<rparr>)"
proof -
  have h1: "0 \<le> t session0 \<and> 3 / 10 \<le> timeScale session0 \<and> timeScale session0 \<le> 2"
    by (simp add: session0_globals)
  have h2: "fl (t session0) = t session0 \<and> 0 \<le> t session0 \<and> 0 \<le> timeScale session0"
    by (simp add: session0_globals fl_zero)
  have h3: "0 \<le> t session0 \<and> t session0 + real 3 \<le> 2 ^ 40 \<and> 3 / 10 \<le> timeScale session0 \<and>
    timeScale session0 \<le> 2 \<and> (0::nat) < 3"
    by (simp add: session0_globals)
  have h4: "fl (t (session0\<lparr>timeScale := 0\<rparr>)) = t (session0\<lparr>timeScale := 0\<rparr>) \<and>
    timeScale (session0\<lparr>timeScale := 0\<rparr>) = 0"
    by (simp add: session0_globals fl_zero)
  show ?thesis
    using h1 h2 h3 h4
      clock_advances[where s = session0 and n = 3 and evs = "[Frame, MouseMoved 3 4]"
        and later = "[Frame]"]
      clock_advances[where s = "session0\<lparr>timeScale := 0\<rparr>" and n = 3 and evs = "[]"
        and later = "[]"]
    by blast
qed

text \<open>
  C7, as stated: from clock \<open>0\<close>, one hundred frames with time scale \<open>1.0\<close> and base
  step \<open>0.02\<close> leave the clock at exactly \<open>2.0\<close>. In the binary64 arithmetic of the
  program they do not.
\<close>

theorem clock_after_100_frames_counterexample:
  "(clock_f64 NOISE 1 ^^ 100) 0 \<noteq> 2"
  using clock_f64_100 by simp

text \<open>
  C7, amended: from clock \<open>0\<close>, one hundred frames with time scale \<open>1.0\<close> and base step
  \<open>0.02\<close> leave the clock at \<open>2 + 3 / 2 ^ 51\<close> (printed \<open>2.0000000000000013\<close>) in
  binary64, within \<open>2 ^ -49\<close> of \<open>2.0\<close>, and this is the clock of the sketch after one
  hundred calls of \<open>draw\<close>; in exact arithmetic the same hundred updates give exactly
  \<open>2\<close>.
\<close>

theorem clock_after_100_frames:
  "(clock_f64 NOISE 1 ^^ 100) 0 = 2 + 3 / 2 ^ 51 \<and>
   \<bar>(clock_f64 NOISE 1 ^^ 100) 0 - 2\<bar> \<le> 1 / 2 ^ 49 \<and>
   (t s = 0 \<and> timeScale s = 1 \<longrightarrow> t ((draw NOISE ^^ 100) s) = 2 + 3 / 2 ^ 51) \<and>
   (clock_exact NOISE 1 ^^ 100) 0 = 2"
proof (intro conjI impI)
  show "(clock_f64 NOISE 1 ^^ 100) 0 = 2 + 3 / 2 ^ 51" by (rule clock_f64_100)
  show "\<bar>(clock_f64 NOISE 1 ^^ 100) 0 - 2\<bar> \<le> 1 / 2 ^ 49"
    unfolding clock_f64_100 by simp
  show "(clock_exact NOISE 1 ^^ 100) 0 = 2"
    unfolding clock_exact_frames by (simp add: NOISE_def)
next
  assume "t s = 0 \<and> timeScale s = 1"
  then show "t ((draw NOISE ^^ 100) s) = 2 + 3 / 2 ^ 51"
    by (simp only: t_frames clock_f64_100)
qed

theorem clock_after_100_frames_witness:
  "t session0 = 0 \<and> timeScale session0 = 1 \<and>
   t ((draw NOISE ^^ 100) session0) = 2 + 3 / 2 ^ 51"
  using clock_after_100_frames[of session0] by (simp add: session0_globals)

subsection \<open>The transformation stack\<close>

lemma stack_simps:
  "stack (push g) = matrix g # stack g"
  "stack (translate a b g) = stack g"
  "stack (rotate_p5 a g) = stack g"
  "stack (scale_p5 a g) = stack g"
  "stack (randomSeed n g) = stack g"
  "stack (snd (random2 lo hi g)) = stack g"
  by (simp_all add: push_def translate_def rotate_p5_def scale_p5_def randomSeed_def
      random2_def split_beta Let_def)

lemma matrix_simps:
  "matrix (push g) = matrix g"
  "matrix (translate a b g) = matrix g @ [Translate a b]"
  "matrix (rotate_p5 r g) = matrix g @ [Rotate r]"
  "matrix (scale_p5 r g) = matrix g @ [Scale r]"
  by (simp_all add: push_def translate_def rotate_p5_def scale_p5_def)

lemma pop_Cons: "stack g = m # rest \<Longrightarrow> stack (pop g) = rest \<and> matrix (pop g) = m"
  by (simp add: pop_def)

lemma stack_scoped: "stack (pop (rotate_p5 a (push g))) = stack g"
  by (simp add: pop_def stack_simps)

lemma stack_fold:
  assumes "\<And>i g. stack (f i g) = stack g"
  shows "stack (fold f xs g) = stack g"
  using assms by (induction xs arbitrary: g) auto

lemma balanced_drawCircle1: "balanced drawCircle1"
  by (simp add: balanced_def drawCircle1_def)

lemma balanced_drawCircle2: "balanced drawCircle2"
  unfolding balanced_def drawCircle2_def Let_def
  by (intro allI stack_fold stack_scoped)

lemma balanced_drawCircle3: "balanced drawCircle3"
  unfolding balanced_def drawCircle3_def Let_def
  by (intro allI stack_fold stack_scoped)

lemma balanced_drawCircle4: "balanced drawCircle4"
  by (simp add: balanced_def drawCircle4_def)

lemma balanced_drawCircle5: "balanced drawCircle5"
proof -
  have "stack (fold (\<lambda>i g. rotate_p5 (real i * 60 + noiseWiggle strength g (800 + real i) 35 tt) g) xs
          (push g0)) = matrix g0 # stack g0" for strength tt xs g0
    by (subst stack_fold) (simp_all add: stack_simps)
  then show ?thesis
    unfolding balanced_def drawCircle5_def Let_def
    by (simp add: pop_def)
qed

lemma balanced_drawCircle6: "balanced drawCircle6"
  unfolding balanced_def drawCircle6_def Let_def
  by (simp add: stack_fold split_beta stack_simps)

lemma balanced_drawCircle7: "balanced drawCircle7"
  unfolding balanced_def drawCircle7_def Let_def
  by (intro allI stack_fold stack_scoped)

lemma balanced_drawCircle8: "balanced drawCircle8"
  unfolding balanced_def drawCircle8_def Let_def
  by (intro allI stack_fold stack_scoped)

lemma display_frame:
  "display cfg c tt strength g =
     pop (drawFn c tt strength
       (g\<lparr>stack := matrix g # stack g,
          matrix := matrix g @
             [Translate (x c + display_dx cfg c tt strength g) (y c + display_dy cfg c tt strength g),
              Rotate (display_ang cfg c tt strength g),
              Scale (scale c * display_sFactor cfg c tt strength g)]\<rparr>))"
  by (simp add: display_def Let_def push_def translate_def rotate_p5_def scale_p5_def)

lemma display_restores:
  assumes "balanced (drawFn c)"
  shows "stack (display cfg c tt strength g) = stack g \<and>
         matrix (display cfg c tt strength g) = matrix g"
proof -
  let ?g4 = "g\<lparr>stack := matrix g # stack g,
          matrix := matrix g @
             [Translate (x c + display_dx cfg c tt strength g) (y c + display_dy cfg c tt strength g),
              Rotate (display_ang cfg c tt strength g),
              Scale (scale c * display_sFactor cfg c tt strength g)]\<rparr>"
  from assms have "stack (drawFn c tt strength ?g4) = stack ?g4"
    by (simp add: balanced_def)
  then have "stack (drawFn c tt strength ?g4) = matrix g # stack g" by simp
  from pop_Cons[OF this] show ?thesis by (simp add: display_frame)
qed

text \<open>
  C8, as stated: after \<open>display\<close> returns, the transformation stack is what it was
  before the call, whatever the drawing routine does. A routine that calls \<open>push\<close> and
  returns without \<open>pop\<close> leaves the stack of \<open>display\<close> one entry deeper.
\<close>

theorem display_restores_counterexample:
  "stack (display NOISE (figure0\<lparr>drawFn := leaky\<rparr>) 1 1 (gfx session0)) \<noteq> stack (gfx session0)"
  by (simp add: display_frame leaky_def push_def pop_def)

text \<open>
  C8, amended: \<open>display\<close> saves the transformation, composes the translation by the
  base position plus the sampled offsets, the rotation and the scaling, runs the drawing
  routine in that frame and calls \<open>pop\<close>. For every figure whose drawing routine is
  balanced, the stack and the current transformation after \<open>display\<close> are what they
  were before the call; the eight drawing routines of the sketch are balanced.
\<close>

theorem display_restores_balanced:
  "display cfg c tt strength g =
     pop (drawFn c tt strength
       (g\<lparr>stack := matrix g # stack g,
          matrix := matrix g @
             [Translate (x c + display_dx cfg c tt strength g) (y c + display_dy cfg c tt strength g),
              Rotate (display_ang cfg c tt strength g),
              Scale (scale c * display_sFactor cfg c tt strength g)]\<rparr>)) \<and>
   (balanced (drawFn c) \<longrightarrow>
      stack (display cfg c tt strength g) = stack g \<and>
      matrix (display cfg c tt strength g) = matrix g) \<and>
   balanced drawCircle1 \<and> balanced drawCircle2 \<and> balanced drawCircle3 \<and>
   balanced drawCircle4 \<and> balanced drawCircle5 \<and> balanced drawCircle6 \<and>
   balanced drawCircle7 \<and> balanced drawCircle8"
  using display_frame display_restores balanced_drawCircle1 balanced_drawCircle2
    balanced_drawCircle3 balanced_drawCircle4 balanced_drawCircle5 balanced_drawCircle6
    balanced_drawCircle7 balanced_drawCircle8
  by blast

theorem display_restores_balanced_witness:
  "balanced (drawFn figure0) \<and>
   stack (display NOISE figure0 1 1 (gfx session0)) = stack (gfx session0) \<and>
   matrix (display NOISE figure0 1 1 (gfx session0)) = matrix (gfx session0)"
proof -
  have d: "drawFn figure0 = drawCircle6" by (simp add: figure0_def)
  show ?thesis
    using display_restores_balanced[of NOISE figure0 1 1 "gfx session0"] unfolding d by blast
qed

subsection \<open>Configuration\<close>

text \<open>
  C9, as stated: an invalid configuration (for example \<open>sMin > sMax\<close>) is detected at
  startup, which fails with a configuration error. Startup with \<open>sMin = 2\<close> above
  \<open>sMax = 1.15\<close> does not fail.
\<close>

theorem startup_validates_counterexample:
  "config_invalid (NOISE\<lparr>sMin := 2\<rparr>) \<and> \<not> isl (startup (NOISE\<lparr>sMin := 2\<rparr>) (initial ramp_field (\<lambda>k. 0)))"
  by (simp add: config_invalid_def NOISE_def startup_def)

text \<open>
  C9, amended: the program does not validate its configuration; startup succeeds for
  every configuration and hands over to rendering. The configuration the sketch ships,
  \<open>NOISE\<close>, is not invalid.
\<close>

theorem startup_never_fails:
  "startup cfg s = Inr (setup_sketch s) \<and> \<not> config_invalid NOISE"
  by (simp add: startup_def config_invalid_def NOISE_def)

subsection \<open>The samples of display\<close>

text \<open>
  C3, as stated: the offsets computed inside \<open>display\<close> equal
  \<open>noiseWiggle(seed, amplitude, t)\<close> for the figure's seed and the configured
  amplitude. With a noise field that depends on its second coordinate they differ.
\<close>

theorem display_samples_counterexample:
  "display_dx NOISE figure0 1 1 (gfx session0) \<noteq>
   noiseWiggle 1 (gfx session0) (nx figure0) (wiggle NOISE) 1"
  by (simp add: display_dx_def noiseWiggle_def noise1_def noise_session0 map_p5_def NOISE_def)

text \<open>
  C3, amended: \<open>display\<close> samples the noise at the one-dimensional coordinate
  \<open>seed + t\<close>, that is at \<open>(seed + t, 0)\<close>, not at \<open>(seed, t)\<close>. Its two position
  offsets and its rotation equal \<open>noiseWiggle(seed + t, amplitude, 0)\<close> for the seeds
  \<open>nx\<close>, \<open>ny\<close>, \<open>nr\<close> and the amplitudes \<open>wiggle\<close>, \<open>wiggle\<close>, \<open>rotMax\<close>; its scale
  factor is the library's \<open>map\<close> of the sample at \<open>ns + t\<close> from \<open>[0, 1]\<close> to
  \<open>[sMin, sMax * noiseStrength]\<close>.
\<close>

theorem display_samples:
  "display_dx cfg c tt strength g = noiseWiggle strength g (nx c + tt) (wiggle cfg) 0 \<and>
   display_dy cfg c tt strength g = noiseWiggle strength g (ny c + tt) (wiggle cfg) 0 \<and>
   display_ang cfg c tt strength g = noiseWiggle strength g (nr c + tt) (rotMax cfg) 0 \<and>
   display_sFactor cfg c tt strength g =
     map_p5 (noise g (ns c + tt) 0) 0 1 (sMin cfg) (sMax cfg * strength)"
  by (simp add: display_dx_def display_dy_def display_ang_def display_sFactor_def
      noiseWiggle_def noise1_def)

end
